theory Spec2Isabelle
  imports Main "HOL-Library.Word"
begin

section \<open>BerryDB page pool: data model\<close>

text \<open>
  The embedding follows \<^verbatim>\<open>src/page_pool.cc\<close>. Pointers are natural numbers:
  a \<^verbatim>\<open>StoreImpl*\<close> is a store number, a \<^verbatim>\<open>Page*\<close> is an address in the page
  heap, and a \<^verbatim>\<open>TransactionImpl*\<close> carries the store it belongs to, so that
  \<^verbatim>\<open>transaction->store()\<close> is a projection. Every operation returns an
  \<open>option\<close>: \<open>None\<close> is a failed \<^verbatim>\<open>DCHECK\<close> (the checked build aborts) or
  the use of a pointer that names no page.
\<close>

text \<open>Modelled from the spec: \<^verbatim>\<open>berrydb/status.h\<close> is not among the sources; the
  status codes are the ones the specification lists as observable.\<close>

datatype Status = kSuccess | kIoError | kNotFound | kAlreadyLocked | kPoolFull

datatype PageFetchMode = kFetchPageData | kIgnorePageData

type_synonym store_ptr = nat
type_synonym page_ptr = nat

datatype transaction_ptr = TransactionImpl (store: store_ptr) (serial: nat)

text \<open>Modelled from the spec: \<^verbatim>\<open>StoreImpl::init_transaction\<close> returns the store's
  bootstrap transaction, the owner of freshly assigned frames.\<close>

definition init_transaction :: "store_ptr \<Rightarrow> transaction_ptr" where
  "init_transaction st = TransactionImpl st 0"

record Page =
  pin_count :: nat
  transaction :: "transaction_ptr option"
  page_id :: nat
  is_dirty :: bool
  buffer :: "8 word list"

text \<open>The calls that leave the pool, and the changes of the resident map, in program
  order. The log is how a statement about "what was called, and when" is expressed.\<close>

datatype event =
    EvAssignPage transaction_ptr page_ptr nat
  | EvUnassignPage transaction_ptr page_ptr
  | EvUnassignPersistedPage transaction_ptr page_ptr
  | EvReadPage store_ptr nat
  | EvWritePage store_ptr nat
  | EvStoreClose store_ptr
  | EvPageMapErase store_ptr nat
  | EvPageMapInsert store_ptr nat page_ptr
  | EvPageCreate page_ptr
  | EvPageRelease page_ptr

text \<open>The outcome of the store's I/O is the environment's choice: what
  \<^verbatim>\<open>ReadPage\<close> returns and leaves in the buffer, and what \<^verbatim>\<open>WritePage\<close>
  returns for a page and its bytes.\<close>

record io =
  ReadPage_result :: "store_ptr \<Rightarrow> nat \<Rightarrow> Status \<times> 8 word list"
  WritePage_result :: "store_ptr \<Rightarrow> nat \<Rightarrow> 8 word list \<Rightarrow> Status"

text \<open>The fields of \<^verbatim>\<open>PagePool\<close>, the page heap it allocates from, and the part of
  the world its calls reach: which stores were closed, and the log.\<close>

record PagePool =
  page_shift :: nat
  page_size :: nat
  page_capacity :: nat
  page_count :: nat
  free_list :: "page_ptr list"
  lru_list :: "page_ptr list"
  page_map :: "store_ptr \<times> nat \<rightharpoonup> page_ptr"
  heap :: "page_ptr \<rightharpoonup> Page"
  closed_stores :: "store_ptr set"
  trace :: "event list"

section \<open>Page\<close>

text \<open>Modelled from the spec: \<^verbatim>\<open>page.h\<close> and \<^verbatim>\<open>page.cc\<close> are not among the
  sources. A frame is born pinned and unassigned (\<^verbatim>\<open>page_unittest.cc\<close> checks both),
  zero-initialized; \<^verbatim>\<open>AddPin\<close> increments the pin count; \<^verbatim>\<open>RemovePin\<close> decrements it
  and fails when it is already zero; \<^verbatim>\<open>WillCacheStoreData\<close> assigns an unassigned
  frame; \<^verbatim>\<open>DoesNotCacheStoreData\<close> resets an assigned frame to unassigned and clears
  the dirty flag; \<^verbatim>\<open>MarkDirty\<close> sets the flag.\<close>

definition Page_Create :: "nat \<Rightarrow> Page" where
  "Page_Create sz =
     \<lparr> pin_count = 1, transaction = None, page_id = 0, is_dirty = False,
       buffer = replicate sz 0 \<rparr>"

definition AddPin :: "Page \<Rightarrow> Page" where
  "AddPin p = p\<lparr> pin_count := pin_count p + 1 \<rparr>"

definition RemovePin :: "Page \<Rightarrow> Page option" where
  "RemovePin p =
     (if pin_count p = 0 then None else Some (p\<lparr> pin_count := pin_count p - 1 \<rparr>))"

definition IsUnpinned :: "Page \<Rightarrow> bool" where
  "IsUnpinned p = (pin_count p = 0)"

definition WillCacheStoreData :: "transaction_ptr \<Rightarrow> nat \<Rightarrow> Page \<Rightarrow> Page option" where
  "WillCacheStoreData t pid p =
     (if transaction p \<noteq> None then None
      else Some (p\<lparr> transaction := Some t, page_id := pid \<rparr>))"

definition DoesNotCacheStoreData :: "Page \<Rightarrow> Page option" where
  "DoesNotCacheStoreData p =
     (if transaction p = None then None
      else Some (p\<lparr> transaction := None, is_dirty := False \<rparr>))"

definition MarkDirty :: "Page \<Rightarrow> Page" where
  "MarkDirty p = p\<lparr> is_dirty := True \<rparr>"

section \<open>Collaborators: transaction and store\<close>

text \<open>Modelled from the spec: \<^verbatim>\<open>transaction_impl.h\<close> is not among the sources.
  \<^verbatim>\<open>AssignPage\<close> binds the frame through \<^verbatim>\<open>WillCacheStoreData\<close>;
  \<^verbatim>\<open>UnassignPage\<close> (clean case) and \<^verbatim>\<open>UnassignPersistedPage\<close> (dirty case, after
  the write-back attempt) detach it through \<^verbatim>\<open>DoesNotCacheStoreData\<close>.\<close>

definition Transaction_AssignPage ::
  "transaction_ptr \<Rightarrow> page_ptr \<Rightarrow> nat \<Rightarrow> PagePool \<Rightarrow> PagePool option" where
  "Transaction_AssignPage t page pid s =
     (case heap s page of
        None \<Rightarrow> None
      | Some p \<Rightarrow>
          (case WillCacheStoreData t pid p of
             None \<Rightarrow> None
           | Some p' \<Rightarrow>
               Some (s\<lparr> heap := (heap s)(page \<mapsto> p'),
                        trace := trace s @ [EvAssignPage t page pid] \<rparr>)))"

definition Transaction_UnassignPage ::
  "transaction_ptr \<Rightarrow> page_ptr \<Rightarrow> PagePool \<Rightarrow> PagePool option" where
  "Transaction_UnassignPage t page s =
     (case heap s page of
        None \<Rightarrow> None
      | Some p \<Rightarrow>
          (case DoesNotCacheStoreData p of
             None \<Rightarrow> None
           | Some p' \<Rightarrow>
               Some (s\<lparr> heap := (heap s)(page \<mapsto> p'),
                        trace := trace s @ [EvUnassignPage t page] \<rparr>)))"

definition Transaction_UnassignPersistedPage ::
  "transaction_ptr \<Rightarrow> page_ptr \<Rightarrow> PagePool \<Rightarrow> PagePool option" where
  "Transaction_UnassignPersistedPage t page s =
     (case heap s page of
        None \<Rightarrow> None
      | Some p \<Rightarrow>
          (case DoesNotCacheStoreData p of
             None \<Rightarrow> None
           | Some p' \<Rightarrow>
               Some (s\<lparr> heap := (heap s)(page \<mapsto> p'),
                        trace := trace s @ [EvUnassignPersistedPage t page] \<rparr>)))"

text \<open>Modelled from the spec: \<^verbatim>\<open>store_impl.h\<close> is not among the sources.
  \<^verbatim>\<open>ReadPage\<close> reads the page named by the frame's assignment into its buffer and
  returns a status; \<^verbatim>\<open>WritePage\<close> writes the buffer to the same location and returns
  a status; \<^verbatim>\<open>Close\<close> moves the store to the closed state and is idempotent.\<close>

definition Store_ReadPage ::
  "io \<Rightarrow> store_ptr \<Rightarrow> page_ptr \<Rightarrow> PagePool \<Rightarrow> (Status \<times> PagePool) option" where
  "Store_ReadPage env st page s =
     (case heap s page of
        None \<Rightarrow> None
      | Some p \<Rightarrow>
          (case ReadPage_result env st (page_id p) of
             (status, bytes) \<Rightarrow>
               Some (status,
                 s\<lparr> heap := (heap s)(page \<mapsto> p\<lparr> buffer := bytes \<rparr>),
                    trace := trace s @ [EvReadPage st (page_id p)] \<rparr>)))"

definition Store_WritePage ::
  "io \<Rightarrow> store_ptr \<Rightarrow> page_ptr \<Rightarrow> PagePool \<Rightarrow> (Status \<times> PagePool) option" where
  "Store_WritePage env st page s =
     (case heap s page of
        None \<Rightarrow> None
      | Some p \<Rightarrow>
          Some (WritePage_result env st (page_id p) (buffer p),
            s\<lparr> trace := trace s @ [EvWritePage st (page_id p)] \<rparr>))"

definition Store_Close :: "store_ptr \<Rightarrow> PagePool \<Rightarrow> PagePool" where
  "Store_Close st s =
     s\<lparr> closed_stores := insert st (closed_stores s),
        trace := trace s @ [EvStoreClose st] \<rparr>"

section \<open>PagePool\<close>

text \<open>\<^verbatim>\<open>PagePool::PagePool\<close>: no frame is allocated at construction. The page size
  \<^verbatim>\<open>1 << page_shift\<close> is a power of two, which is what the constructor's
  \<^verbatim>\<open>DCHECK\<close> asks.\<close>

definition PagePool_new :: "nat \<Rightarrow> nat \<Rightarrow> PagePool" where
  "PagePool_new shift capacity =
     \<lparr> page_shift = shift, page_size = 2 ^ shift, page_capacity = capacity,
       page_count = 0, free_list = [], lru_list = [], page_map = Map.empty,
       heap = Map.empty, closed_stores = {}, trace = [] \<rparr>"

text \<open>\<^verbatim>\<open>PagePool::UnpinUnassignedPage\<close>. The page goes to the \<^emph>\<open>back\<close> of the free
  list (\<^verbatim>\<open>free_list_.push_back(page)\<close>).\<close>

definition UnpinUnassignedPage :: "page_ptr \<Rightarrow> PagePool \<Rightarrow> PagePool option" where
  "UnpinUnassignedPage page s =
     (case heap s page of
        None \<Rightarrow> None
      | Some p \<Rightarrow>
          if transaction p \<noteq> None then None
          else
            (case RemovePin p of
               None \<Rightarrow> None
             | Some p' \<Rightarrow>
                 let s' = s\<lparr> heap := (heap s)(page \<mapsto> p') \<rparr> in
                 Some (if IsUnpinned p'
                       then s'\<lparr> free_list := free_list s' @ [page] \<rparr>
                       else s')))"

text \<open>\<^verbatim>\<open>PagePool::UnassignPageFromStore\<close>. The resident-map entry is erased first;
  a dirty page is then written back, detached, and its store closed when the write
  failed; a clean page is only detached. The write status goes nowhere else.\<close>

definition UnassignPageFromStore :: "io \<Rightarrow> page_ptr \<Rightarrow> PagePool \<Rightarrow> PagePool option" where
  "UnassignPageFromStore env page s =
     (case heap s page of
        None \<Rightarrow> None
      | Some p \<Rightarrow>
          (case transaction p of
             None \<Rightarrow> None
           | Some t \<Rightarrow>
               let st = store t in
               if page_map s (st, page_id p) = None then None
               else
                 let s1 = s\<lparr> page_map := (page_map s)((st, page_id p) := None),
                             trace := trace s @ [EvPageMapErase st (page_id p)] \<rparr> in
                 if is_dirty p then
                   (case Store_WritePage env st page s1 of
                      None \<Rightarrow> None
                    | Some (write_status, s2) \<Rightarrow>
                        (case Transaction_UnassignPersistedPage t page s2 of
                           None \<Rightarrow> None
                         | Some s3 \<Rightarrow>
                             Some (if write_status \<noteq> kSuccess then Store_Close st s3
                                   else s3)))
                 else Transaction_UnassignPage t page s1))"

text \<open>\<^verbatim>\<open>PagePool::AllocPage\<close>. The result is the page, or \<open>None\<close> for
  \<^verbatim>\<open>nullptr\<close>. \<^verbatim>\<open>Page::Create\<close> returns fresh memory: the model numbers the frames
  in the order of their creation, so the new address is the old page count.\<close>

definition AllocPage :: "io \<Rightarrow> PagePool \<Rightarrow> (page_ptr option \<times> PagePool) option" where
  "AllocPage env s =
     (case free_list s of
        page # rest \<Rightarrow>
          (case heap s page of
             None \<Rightarrow> None
           | Some p \<Rightarrow>
               let p' = AddPin p in
               if transaction p' \<noteq> None \<or> is_dirty p' then None
               else Some (Some page,
                      s\<lparr> free_list := rest, heap := (heap s)(page \<mapsto> p') \<rparr>))
      | [] \<Rightarrow>
          if page_count s < page_capacity s then
            let page = page_count s in
            Some (Some page,
              s\<lparr> page_count := page_count s + 1,
                 heap := (heap s)(page \<mapsto> Page_Create (page_size s)),
                 trace := trace s @ [EvPageCreate page] \<rparr>)
          else
            (case lru_list s of
               page # rest \<Rightarrow>
                 (case heap s page of
                    None \<Rightarrow> None
                  | Some p \<Rightarrow>
                      (case UnassignPageFromStore env page
                              (s\<lparr> heap := (heap s)(page \<mapsto> AddPin p),
                                  lru_list := rest \<rparr>) of
                         None \<Rightarrow> None
                       | Some s' \<Rightarrow> Some (Some page, s')))
             | [] \<Rightarrow> Some (None, s)))"

text \<open>\<^verbatim>\<open>PagePool::FetchStorePage\<close>, in the checked build: a page whose data is
  ignored is filled with \<^verbatim>\<open>0xCD\<close>.\<close>

definition FetchStorePage ::
  "io \<Rightarrow> page_ptr \<Rightarrow> PageFetchMode \<Rightarrow> PagePool \<Rightarrow> (Status \<times> PagePool) option" where
  "FetchStorePage env page fetch_mode s =
     (case heap s page of
        None \<Rightarrow> None
      | Some p \<Rightarrow>
          (case transaction p of
             None \<Rightarrow> None
           | Some t \<Rightarrow>
               if fetch_mode = kFetchPageData then Store_ReadPage env (store t) page s
               else
                 Some (kSuccess,
                   s\<lparr> heap := (heap s)(page \<mapsto>
                        p\<lparr> buffer := replicate (page_size s) 205 \<rparr>) \<rparr>)))"

text \<open>\<^verbatim>\<open>PagePool::AssignPageToStore\<close>.\<close>

definition AssignPageToStore ::
  "io \<Rightarrow> page_ptr \<Rightarrow> store_ptr \<Rightarrow> nat \<Rightarrow> PageFetchMode \<Rightarrow> PagePool
     \<Rightarrow> (Status \<times> PagePool) option" where
  "AssignPageToStore env page st pid fetch_mode s =
     (case heap s page of
        None \<Rightarrow> None
      | Some p \<Rightarrow>
          if transaction p \<noteq> None then None
          else
            let t = init_transaction st in
            (case Transaction_AssignPage t page pid s of
               None \<Rightarrow> None
             | Some s1 \<Rightarrow>
                 (case FetchStorePage env page fetch_mode s1 of
                    None \<Rightarrow> None
                  | Some (fetch_status, s2) \<Rightarrow>
                      if fetch_status = kSuccess then
                        Some (kSuccess,
                          s2\<lparr> page_map := (page_map s2)((st, pid) \<mapsto> page),
                              trace := trace s2 @ [EvPageMapInsert st pid page] \<rparr>)
                      else
                        (case Transaction_UnassignPage t page s2 of
                           None \<Rightarrow> None
                         | Some s3 \<Rightarrow> Some (fetch_status, s3)))))"

text \<open>\<^verbatim>\<open>PagePool::PinStorePage\<close>. Erasing from the LRU list a page that is not in
  it is a failure of the model.\<close>

definition PinStorePage :: "page_ptr \<Rightarrow> PagePool \<Rightarrow> PagePool option" where
  "PinStorePage page s =
     (case heap s page of
        None \<Rightarrow> None
      | Some p \<Rightarrow>
          if transaction p = None then None
          else if IsUnpinned p then
            (if page \<in> set (lru_list s)
             then Some (s\<lparr> lru_list := remove1 page (lru_list s),
                           heap := (heap s)(page \<mapsto> AddPin p) \<rparr>)
             else None)
          else Some (s\<lparr> heap := (heap s)(page \<mapsto> AddPin p) \<rparr>))"

text \<open>\<^verbatim>\<open>PagePool::PinTransactionPages\<close>: the loop over the transaction's pages.\<close>

fun PinTransactionPages :: "page_ptr list \<Rightarrow> PagePool \<Rightarrow> PagePool option" where
  "PinTransactionPages [] s = Some s"
| "PinTransactionPages (page # page_list) s =
     (case PinStorePage page s of
        None \<Rightarrow> None
      | Some s' \<Rightarrow> PinTransactionPages page_list s')"

text \<open>\<^verbatim>\<open>PagePool::StorePage\<close>. The result is the status and what was written to
  \<^verbatim>\<open>*result\<close> (\<open>None\<close> when nothing was).\<close>

definition StorePage ::
  "io \<Rightarrow> store_ptr \<Rightarrow> nat \<Rightarrow> PageFetchMode \<Rightarrow> PagePool
     \<Rightarrow> ((Status \<times> page_ptr option) \<times> PagePool) option" where
  "StorePage env st pid fetch_mode s =
     (case page_map s (st, pid) of
        Some page \<Rightarrow>
          (case heap s page of
             None \<Rightarrow> None
           | Some p \<Rightarrow>
               (case transaction p of
                  None \<Rightarrow> None
                | Some t \<Rightarrow>
                    if store t \<noteq> st \<or> page_id p \<noteq> pid then None
                    else
                      (case PinStorePage page s of
                         None \<Rightarrow> None
                       | Some s' \<Rightarrow> Some ((kSuccess, Some page), s'))))
      | None \<Rightarrow>
          (case AllocPage env s of
             None \<Rightarrow> None
           | Some (None, s1) \<Rightarrow> Some ((kPoolFull, None), s1)
           | Some (Some page, s1) \<Rightarrow>
               (case AssignPageToStore env page st pid fetch_mode s1 of
                  None \<Rightarrow> None
                | Some (status, s2) \<Rightarrow>
                    if status = kSuccess then Some ((kSuccess, Some page), s2)
                    else
                      (case UnpinUnassignedPage page s2 of
                         None \<Rightarrow> None
                       | Some s3 \<Rightarrow>
                           (case heap s3 page of
                              None \<Rightarrow> None
                            | Some p \<Rightarrow>
                                if IsUnpinned p then Some ((status, None), s3)
                                else None)))))"

text \<open>Modelled from the spec: \<^verbatim>\<open>page_pool.h\<close> is not among the sources.
  \<^verbatim>\<open>UnpinStorePage\<close> takes an assigned, pinned frame, decrements its pin count and,
  when the count reaches zero, appends the frame to the tail of the LRU list.\<close>

definition UnpinStorePage :: "page_ptr \<Rightarrow> PagePool \<Rightarrow> PagePool option" where
  "UnpinStorePage page s =
     (case heap s page of
        None \<Rightarrow> None
      | Some p \<Rightarrow>
          if transaction p = None then None
          else
            (case RemovePin p of
               None \<Rightarrow> None
             | Some p' \<Rightarrow>
                 let s' = s\<lparr> heap := (heap s)(page \<mapsto> p') \<rparr> in
                 Some (if IsUnpinned p'
                       then s'\<lparr> lru_list := lru_list s' @ [page] \<rparr>
                       else s')))"

text \<open>Modelled from the spec: only the transaction that owns a frame calls
  \<^verbatim>\<open>MarkDirty\<close> on it, so the frame is assigned.\<close>

definition MarkPageDirty :: "page_ptr \<Rightarrow> PagePool \<Rightarrow> PagePool option" where
  "MarkPageDirty page s =
     (case heap s page of
        None \<Rightarrow> None
      | Some p \<Rightarrow>
          if transaction p = None then None
          else Some (s\<lparr> heap := (heap s)(page \<mapsto> MarkDirty p) \<rparr>))"

text \<open>Modelled from the spec: \<^verbatim>\<open>pinned_pages()\<close> (\<^verbatim>\<open>page_pool.h\<close>) is the total pin
  count across all frames, and \<^verbatim>\<open>Page::Release\<close> (\<^verbatim>\<open>page.cc\<close>) releases the
  frame's memory; releasing memory that is not allocated is a failure of the model.\<close>

definition pinned_pages :: "PagePool \<Rightarrow> nat" where
  "pinned_pages s =
     sum_list (map (\<lambda>page. case heap s page of None \<Rightarrow> 0 | Some p \<Rightarrow> pin_count p)
                   [0..<page_count s])"

definition Page_Release :: "page_ptr \<Rightarrow> PagePool \<Rightarrow> PagePool option" where
  "Page_Release page s =
     (case heap s page of
        None \<Rightarrow> None
      | Some p \<Rightarrow>
          Some (s\<lparr> heap := (heap s)(page := None),
                   trace := trace s @ [EvPageRelease page] \<rparr>))"

text \<open>The two loops of \<^verbatim>\<open>PagePool::~PagePool\<close> walk a list and release each page.\<close>

fun release_pages :: "page_ptr list \<Rightarrow> PagePool \<Rightarrow> PagePool option" where
  "release_pages [] s = Some s"
| "release_pages (page # rest) s =
     (case Page_Release page s of
        None \<Rightarrow> None
      | Some s' \<Rightarrow> release_pages rest s')"

text \<open>\<^verbatim>\<open>PagePool::~PagePool\<close>: the assertion, the free list, then the LRU list.\<close>

definition PagePool_destroy :: "PagePool \<Rightarrow> PagePool option" where
  "PagePool_destroy s =
     (if pinned_pages s \<noteq> 0 then None
      else
        (case release_pages (free_list s) s of
           None \<Rightarrow> None
         | Some s1 \<Rightarrow> release_pages (lru_list s) s1))"

section \<open>Reachable pool states\<close>

text \<open>A client drives the pool through its operations. Besides the four public
  operations, \<^verbatim>\<open>AllocPage\<close> (the only source of a pinned unassigned frame that
  \<^verbatim>\<open>UnpinUnassignedPage\<close> can take) and the marking of an assigned frame as dirty are
  steps too, so that every path of the eviction code is reachable. A step whose
  assertion fails is not a step: the run is \<open>None\<close>.\<close>

datatype pool_op =
    OpStorePage io store_ptr nat PageFetchMode
  | OpUnpinStorePage page_ptr
  | OpUnpinUnassignedPage page_ptr
  | OpPinTransactionPages "page_ptr list"
  | OpAllocPage io
  | OpMarkPageDirty page_ptr

fun apply_op :: "pool_op \<Rightarrow> PagePool \<Rightarrow> PagePool option" where
  "apply_op (OpStorePage env st pid fetch_mode) s =
     map_option snd (StorePage env st pid fetch_mode s)"
| "apply_op (OpUnpinStorePage page) s = UnpinStorePage page s"
| "apply_op (OpUnpinUnassignedPage page) s = UnpinUnassignedPage page s"
| "apply_op (OpPinTransactionPages page_list) s = PinTransactionPages page_list s"
| "apply_op (OpAllocPage env) s = map_option snd (AllocPage env s)"
| "apply_op (OpMarkPageDirty page) s = MarkPageDirty page s"

fun run :: "pool_op list \<Rightarrow> PagePool \<Rightarrow> PagePool option" where
  "run [] s = Some s"
| "run (opn # ops) s =
     (case apply_op opn s of
        None \<Rightarrow> None
      | Some s' \<Rightarrow> run ops s')"

text \<open>The assignment of a frame: the key of the resident map it stands for.\<close>

definition assignment :: "Page \<Rightarrow> (store_ptr \<times> nat) option" where
  "assignment p = map_option (\<lambda>t. (store t, page_id p)) (transaction p)"

text \<open>The state invariant that holds between pool operations.\<close>

definition pool_inv :: "PagePool \<Rightarrow> bool" where
  "pool_inv s \<longleftrightarrow>
     (\<forall>page. page_count s \<le> page \<longrightarrow> heap s page = None) \<and>
     (\<forall>page. page < page_count s \<longrightarrow> (\<exists>p. heap s page = Some p)) \<and>
     page_count s \<le> page_capacity s \<and>
     distinct (free_list s) \<and> distinct (lru_list s) \<and>
     (\<forall>page. page \<in> set (free_list s) \<longleftrightarrow>
        (\<exists>p. heap s page = Some p \<and> pin_count p = 0 \<and> transaction p = None)) \<and>
     (\<forall>page. page \<in> set (lru_list s) \<longleftrightarrow>
        (\<exists>p. heap s page = Some p \<and> pin_count p = 0 \<and> transaction p \<noteq> None)) \<and>
     (\<forall>st pid page. page_map s (st, pid) = Some page \<longleftrightarrow>
        (\<exists>p. heap s page = Some p \<and> assignment p = Some (st, pid))) \<and>
     (\<forall>page p. heap s page = Some p \<longrightarrow> transaction p = None \<longrightarrow> \<not> is_dirty p)"

text \<open>An environment for the examples: every read succeeds, every write fails.\<close>

definition io_write_fails :: io where
  "io_write_fails =
     \<lparr> ReadPage_result = (\<lambda>st pid. (kSuccess, [1, 2, 3, 4])),
       WritePage_result = (\<lambda>st pid bytes. kIoError) \<rparr>"

text \<open>Further environments: all I/O succeeds; every read fails; all I/O fails.\<close>

definition io_ok :: io where
  "io_ok =
     \<lparr> ReadPage_result = (\<lambda>st pid. (kSuccess, [1, 2, 3, 4])),
       WritePage_result = (\<lambda>st pid bytes. kSuccess) \<rparr>"

definition io_read_fails :: io where
  "io_read_fails =
     \<lparr> ReadPage_result = (\<lambda>st pid. (kIoError, [0, 0, 0, 0])),
       WritePage_result = (\<lambda>st pid bytes. kSuccess) \<rparr>"

definition io_all_fail :: io where
  "io_all_fail =
     \<lparr> ReadPage_result = (\<lambda>st pid. (kIoError, [0, 0, 0, 0])),
       WritePage_result = (\<lambda>st pid bytes. kIoError) \<rparr>"

text \<open>A pool of capacity 1 whose only frame caches page 1 of store 1, dirty and
  unpinned: the state after \<^verbatim>\<open>StorePage(S, 1)\<close>, marking the page dirty, and
  unpinning it.\<close>

definition dirty_victim_pool :: PagePool where
  "dirty_victim_pool =
     \<lparr> page_shift = 2, page_size = 4, page_capacity = 1, page_count = 1,
       free_list = [], lru_list = [0],
       page_map = [(1, 1) \<mapsto> 0],
       heap = [0 \<mapsto> \<lparr> pin_count = 0, transaction = Some (TransactionImpl 1 0),
                       page_id = 1, is_dirty = True, buffer = [1, 2, 3, 4] \<rparr>],
       closed_stores = {},
       trace = [EvPageCreate 0, EvAssignPage (TransactionImpl 1 0) 0 1, EvReadPage 1 1,
                EvPageMapInsert 1 1 0] \<rparr>"

text \<open>A pool of capacity 2 with both frames pinned: the state after
  \<^verbatim>\<open>StorePage(S, 1)\<close> and \<^verbatim>\<open>StorePage(S, 2)\<close> with no unpin.\<close>

definition both_pinned_pool :: PagePool where
  "both_pinned_pool =
     \<lparr> page_shift = 2, page_size = 4, page_capacity = 2, page_count = 2,
       free_list = [], lru_list = [],
       page_map = [(1, 1) \<mapsto> 0, (1, 2) \<mapsto> 1],
       heap = [0 \<mapsto> \<lparr> pin_count = 1, transaction = Some (TransactionImpl 1 0),
                       page_id = 1, is_dirty = False, buffer = [1, 2, 3, 4] \<rparr>,
               1 \<mapsto> \<lparr> pin_count = 1, transaction = Some (TransactionImpl 1 0),
                       page_id = 2, is_dirty = False, buffer = [1, 2, 3, 4] \<rparr>],
       closed_stores = {},
       trace = [EvPageCreate 0, EvAssignPage (TransactionImpl 1 0) 0 1, EvReadPage 1 1,
                EvPageMapInsert 1 1 0,
                EvPageCreate 1, EvAssignPage (TransactionImpl 1 0) 1 2, EvReadPage 1 2,
                EvPageMapInsert 1 2 1] \<rparr>"

text \<open>A pool of capacity 2 whose two frames were allocated raw and then freed, frame 0
  first and frame 1 last.\<close>

definition two_free_pool :: PagePool where
  "two_free_pool =
     \<lparr> page_shift = 2, page_size = 4, page_capacity = 2, page_count = 2,
       free_list = [0, 1], lru_list = [],
       page_map = Map.empty,
       heap = [0 \<mapsto> \<lparr> pin_count = 0, transaction = None,
                       page_id = 0, is_dirty = False, buffer = [0, 0, 0, 0] \<rparr>,
               1 \<mapsto> \<lparr> pin_count = 0, transaction = None,
                       page_id = 0, is_dirty = False, buffer = [0, 0, 0, 0] \<rparr>],
       closed_stores = {},
       trace = [EvPageCreate 0, EvPageCreate 1] \<rparr>"

text \<open>The state in which \<^verbatim>\<open>AllocPage\<close> calls \<^verbatim>\<open>UnassignPageFromStore\<close> on the
  victim of \<open>dirty_victim_pool\<close>: the frame is pinned and off the LRU list.\<close>

definition evicting_pool :: PagePool where
  "evicting_pool =
     dirty_victim_pool
       \<lparr> lru_list := [],
         heap := [0 \<mapsto> \<lparr> pin_count = 1, transaction = Some (TransactionImpl 1 0),
                         page_id = 1, is_dirty = True, buffer = [1, 2, 3, 4] \<rparr>] \<rparr>"

section \<open>The libc VFS\<close>

text \<open>The embedding of \<^verbatim>\<open>src/vfs/libc_vfs.cc\<close>. The C library is the environment:
  a record of functions over an abstract world \<open>'w\<close> (the C runtime and the file
  system), one for each call the file makes. \<^verbatim>\<open>fopen\<close> returns \<open>None\<close> for
  \<^verbatim>\<open>NULL\<close>. \<^verbatim>\<open>size_t\<close> is a 64-bit word and \<^verbatim>\<open>long\<close> its signed reading.\<close>

type_synonym FILE_ptr = nat

datatype whence = SEEK_SET | SEEK_END

record 'w libc =
  libc_fopen :: "string \<Rightarrow> string \<Rightarrow> 'w \<Rightarrow> FILE_ptr option \<times> 'w"
  libc_fclose :: "FILE_ptr \<Rightarrow> 'w \<Rightarrow> 'w"
  libc_fseek :: "FILE_ptr \<Rightarrow> int \<Rightarrow> whence \<Rightarrow> 'w \<Rightarrow> int \<times> 'w"
  libc_ftell :: "FILE_ptr \<Rightarrow> 'w \<Rightarrow> int"
  libc_fread :: "FILE_ptr \<Rightarrow> 64 word \<Rightarrow> 'w \<Rightarrow> (nat \<times> 8 word list) \<times> 'w"
  libc_fwrite :: "FILE_ptr \<Rightarrow> 8 word list \<Rightarrow> 'w \<Rightarrow> nat \<times> 'w"
  libc_fflush :: "FILE_ptr \<Rightarrow> 'w \<Rightarrow> int \<times> 'w"
  libc_setbuf :: "FILE_ptr \<Rightarrow> 'w \<Rightarrow> 'w"
  libc_remove :: "string \<Rightarrow> 'w \<Rightarrow> int \<times> 'w"

text \<open>The tail of \<^verbatim>\<open>OpenLibcFile\<close>: seek to the end and report the size, or close
  the file and report failure.\<close>

definition OpenLibcFile_size ::
  "'w libc \<Rightarrow> FILE_ptr option \<Rightarrow> 'w \<Rightarrow> (FILE_ptr option \<times> 64 word) \<times> 'w" where
  "OpenLibcFile_size L fp w =
     (case fp of
        Some f \<Rightarrow>
          (case libc_fseek L f 0 SEEK_END w of
             (r, w1) \<Rightarrow>
               if r = 0 then ((Some f, word_of_int (libc_ftell L f w1)), w1)
               else ((None, 0), libc_fclose L f w1))
      | None \<Rightarrow> ((None, 0), w))"

text \<open>\<^verbatim>\<open>OpenLibcFile\<close>. \<open>win32\<close> selects the branch of the preprocessor
  conditional. The result is \<open>None\<close> when the \<^verbatim>\<open>DCHECK\<close> on the flags fails.\<close>

definition OpenLibcFile ::
  "'w libc \<Rightarrow> bool \<Rightarrow> string \<Rightarrow> bool \<Rightarrow> bool \<Rightarrow> 'w
     \<Rightarrow> ((FILE_ptr option \<times> 64 word) \<times> 'w) option" where
  "OpenLibcFile L win32 file_path create_if_missing error_if_exists w =
     (if \<not> (\<not> error_if_exists \<or> create_if_missing) then None
      else if error_if_exists then
        (if win32 then
           (case libc_fopen L file_path ''rb'' w of
              (Some f, w1) \<Rightarrow> Some ((None, 0), libc_fclose L f w1)
            | (None, w1) \<Rightarrow>
                (case libc_fopen L file_path ''wb+'' w1 of
                   (fp, w2) \<Rightarrow> Some (OpenLibcFile_size L fp w2)))
         else
           (case libc_fopen L file_path ''wb+x'' w of
              (fp, w1) \<Rightarrow> Some (OpenLibcFile_size L fp w1)))
      else
        (let w1 =
           (if create_if_missing then
              (case libc_fopen L file_path ''ab+'' w of
                 (Some f, w') \<Rightarrow> libc_fclose L f w'
               | (None, w') \<Rightarrow> w')
            else w)
         in (case libc_fopen L file_path ''rb+'' w1 of
               (fp, w2) \<Rightarrow> Some (OpenLibcFile_size L fp w2))))"

text \<open>\<^verbatim>\<open>ReadLibcFile\<close>: the status, the bytes left in the buffer, the world.\<close>

definition ReadLibcFile ::
  "'w libc \<Rightarrow> FILE_ptr \<Rightarrow> 64 word \<Rightarrow> 8 word list \<Rightarrow> 'w
     \<Rightarrow> Status \<times> 8 word list \<times> 'w" where
  "ReadLibcFile L fp offset buf w =
     (case libc_fseek L fp (sint offset) SEEK_SET w of
        (r, w1) \<Rightarrow>
          if r \<noteq> 0 then (kIoError, buf, w1)
          else
            (case libc_fread L fp (of_nat (length buf)) w1 of
               ((n, bytes), w2) \<Rightarrow>
                 if n \<noteq> 1 then (kIoError, bytes, w2)
                 else (kSuccess, bytes, w2)))"

text \<open>\<^verbatim>\<open>WriteLibcFile\<close>.\<close>

definition WriteLibcFile ::
  "'w libc \<Rightarrow> FILE_ptr \<Rightarrow> 8 word list \<Rightarrow> 64 word \<Rightarrow> 'w \<Rightarrow> Status \<times> 'w" where
  "WriteLibcFile L fp data offset w =
     (case libc_fseek L fp (sint offset) SEEK_SET w of
        (r, w1) \<Rightarrow>
          if r \<noteq> 0 then (kIoError, w1)
          else
            (case libc_fwrite L fp data w1 of
               (n, w2) \<Rightarrow>
                 if n \<noteq> 1 then (kIoError, w2)
                 else (kSuccess, w2)))"

text \<open>\<^verbatim>\<open>SyncLibcFile\<close>.\<close>

definition SyncLibcFile :: "'w libc \<Rightarrow> FILE_ptr \<Rightarrow> 'w \<Rightarrow> Status \<times> 'w" where
  "SyncLibcFile L fp w =
     (case libc_fflush L fp w of
        (r, w1) \<Rightarrow> ((if r = 0 then kSuccess else kIoError), w1))"

text \<open>\<^verbatim>\<open>LibcBlockAccessFile\<close>, in the checked build (it keeps the block size).\<close>

record LibcBlockAccessFile =
  block_fp :: FILE_ptr
  block_size :: "64 word"

definition LibcBlockAccessFile_new ::
  "'w libc \<Rightarrow> FILE_ptr \<Rightarrow> nat \<Rightarrow> 'w \<Rightarrow> LibcBlockAccessFile \<times> 'w" where
  "LibcBlockAccessFile_new L fp block_shift w =
     (\<lparr> block_fp = fp, block_size = push_bit block_shift 1 \<rparr>, libc_setbuf L fp w)"

definition LibcBlockAccessFile_Read ::
  "'w libc \<Rightarrow> LibcBlockAccessFile \<Rightarrow> 64 word \<Rightarrow> 8 word list \<Rightarrow> 'w
     \<Rightarrow> (Status \<times> 8 word list \<times> 'w) option" where
  "LibcBlockAccessFile_Read L file offset buf w =
     (if and (of_nat (length buf)) (of_nat (length buf) - 1) \<noteq> (0 :: 64 word) then None
      else if and offset (block_size file - 1) \<noteq> 0 then None
      else Some (ReadLibcFile L (block_fp file) offset buf w))"

definition LibcBlockAccessFile_Write ::
  "'w libc \<Rightarrow> LibcBlockAccessFile \<Rightarrow> 8 word list \<Rightarrow> 64 word \<Rightarrow> 'w
     \<Rightarrow> (Status \<times> 'w) option" where
  "LibcBlockAccessFile_Write L file data offset w =
     (if and (of_nat (length data)) (of_nat (length data) - 1) \<noteq> (0 :: 64 word) then None
      else if and offset (block_size file - 1) \<noteq> 0 then None
      else Some (WriteLibcFile L (block_fp file) data offset w))"

definition LibcBlockAccessFile_Sync ::
  "'w libc \<Rightarrow> LibcBlockAccessFile \<Rightarrow> 'w \<Rightarrow> Status \<times> 'w" where
  "LibcBlockAccessFile_Sync L file w = SyncLibcFile L (block_fp file) w"

text \<open>\<^verbatim>\<open>LibcBlockAccessFile::Lock\<close>: the body is one \<^verbatim>\<open>return\<close>; no library call is
  made, so the world is returned as it was.\<close>

definition LibcBlockAccessFile_Lock ::
  "'w libc \<Rightarrow> LibcBlockAccessFile \<Rightarrow> 'w \<Rightarrow> Status \<times> 'w" where
  "LibcBlockAccessFile_Lock L file w = (kSuccess, w)"

definition LibcBlockAccessFile_Close ::
  "'w libc \<Rightarrow> LibcBlockAccessFile \<Rightarrow> 'w \<Rightarrow> Status \<times> 'w" where
  "LibcBlockAccessFile_Close L file w = (kSuccess, libc_fclose L (block_fp file) w)"

text \<open>\<^verbatim>\<open>LibcRandomAccessFile\<close>: its only field is the \<^verbatim>\<open>FILE*\<close>.\<close>

definition LibcRandomAccessFile_Read ::
  "'w libc \<Rightarrow> FILE_ptr \<Rightarrow> 64 word \<Rightarrow> 8 word list \<Rightarrow> 'w
     \<Rightarrow> Status \<times> 8 word list \<times> 'w" where
  "LibcRandomAccessFile_Read L fp offset buf w = ReadLibcFile L fp offset buf w"

definition LibcRandomAccessFile_Write ::
  "'w libc \<Rightarrow> FILE_ptr \<Rightarrow> 8 word list \<Rightarrow> 64 word \<Rightarrow> 'w \<Rightarrow> Status \<times> 'w" where
  "LibcRandomAccessFile_Write L fp data offset w = WriteLibcFile L fp data offset w"

definition LibcRandomAccessFile_Flush :: "'w libc \<Rightarrow> FILE_ptr \<Rightarrow> 'w \<Rightarrow> Status \<times> 'w" where
  "LibcRandomAccessFile_Flush L fp w =
     (case libc_fflush L fp w of
        (r, w1) \<Rightarrow> ((if r = 0 then kSuccess else kIoError), w1))"

definition LibcRandomAccessFile_Sync :: "'w libc \<Rightarrow> FILE_ptr \<Rightarrow> 'w \<Rightarrow> Status \<times> 'w" where
  "LibcRandomAccessFile_Sync L fp w = SyncLibcFile L fp w"

definition LibcRandomAccessFile_Close :: "'w libc \<Rightarrow> FILE_ptr \<Rightarrow> 'w \<Rightarrow> Status \<times> 'w" where
  "LibcRandomAccessFile_Close L fp w = (kSuccess, libc_fclose L fp w)"

text \<open>\<^verbatim>\<open>LibcVfs\<close>. An open returns the status, the file (\<open>None\<close> for
  \<^verbatim>\<open>nullptr\<close>) and the file size.\<close>

definition OpenForRandomAccess ::
  "'w libc \<Rightarrow> bool \<Rightarrow> string \<Rightarrow> bool \<Rightarrow> bool \<Rightarrow> 'w
     \<Rightarrow> ((Status \<times> FILE_ptr option \<times> 64 word) \<times> 'w) option" where
  "OpenForRandomAccess L win32 file_path create_if_missing error_if_exists w =
     (case OpenLibcFile L win32 file_path create_if_missing error_if_exists w of
        None \<Rightarrow> None
      | Some ((None, file_size), w1) \<Rightarrow> Some ((kIoError, None, 0), w1)
      | Some ((Some fp, file_size), w1) \<Rightarrow> Some ((kSuccess, Some fp, file_size), w1))"

definition OpenForBlockAccess ::
  "'w libc \<Rightarrow> bool \<Rightarrow> string \<Rightarrow> nat \<Rightarrow> bool \<Rightarrow> bool \<Rightarrow> 'w
     \<Rightarrow> ((Status \<times> LibcBlockAccessFile option \<times> 64 word) \<times> 'w) option" where
  "OpenForBlockAccess L win32 file_path block_shift create_if_missing error_if_exists w =
     (case OpenLibcFile L win32 file_path create_if_missing error_if_exists w of
        None \<Rightarrow> None
      | Some ((None, file_size), w1) \<Rightarrow> Some ((kIoError, None, 0), w1)
      | Some ((Some fp, file_size), w1) \<Rightarrow>
          (case LibcBlockAccessFile_new L fp block_shift w1 of
             (file, w2) \<Rightarrow> Some ((kSuccess, Some file, file_size), w2)))"

definition RemoveFile :: "'w libc \<Rightarrow> string \<Rightarrow> 'w \<Rightarrow> Status \<times> 'w" where
  "RemoveFile L file_path w =
     (case libc_remove L file_path w of
        (r, w1) \<Rightarrow> ((if r \<noteq> 0 then kIoError else kSuccess), w1))"

text \<open>A C library over a world that is the list of the files that exist: a file opens
  for reading only if it exists, opens exclusively only if it does not, and is created
  by the other write modes; every other call succeeds.\<close>

definition files_libc :: "string list libc" where
  "files_libc =
     \<lparr> libc_fopen = (\<lambda>path mode files.
         if mode = ''rb'' \<or> mode = ''rb+''
         then (if path \<in> set files then (Some 1, files) else (None, files))
         else if mode = ''wb+x''
         then (if path \<in> set files then (None, files) else (Some 1, path # files))
         else (Some 1, if path \<in> set files then files else path # files)),
       libc_fclose = (\<lambda>fp files. files),
       libc_fseek = (\<lambda>fp off wh files. (0, files)),
       libc_ftell = (\<lambda>fp files. 0),
       libc_fread = (\<lambda>fp n files. ((1, replicate (unat n) 0), files)),
       libc_fwrite = (\<lambda>fp bytes files. (1, files)),
       libc_fflush = (\<lambda>fp files. (0, files)),
       libc_setbuf = (\<lambda>fp files. files),
       libc_remove = (\<lambda>path files.
         if path \<in> set files then (0, removeAll path files) else (-1, files)) \<rparr>"

section \<open>The invariant is kept by every operation\<close>


lemmas page_defs = AddPin_def RemovePin_def IsUnpinned_def WillCacheStoreData_def
  DoesNotCacheStoreData_def MarkDirty_def Page_Create_def assignment_def

lemmas collab_defs = Transaction_AssignPage_def Transaction_UnassignPage_def
  Transaction_UnassignPersistedPage_def Store_ReadPage_def Store_WritePage_def
  Store_Close_def

lemma UnassignPageFromStore_result:
  assumes "UnassignPageFromStore env page s = Some s'" "heap s page = Some p"
  shows "\<exists>t. transaction p = Some t \<and> page_map s (store t, page_id p) \<noteq> None \<and>
           s' = s\<lparr> page_map := (page_map s)((store t, page_id p) := None),
                   heap := (heap s)(page \<mapsto> p\<lparr> transaction := None, is_dirty := False \<rparr>),
                   closed_stores := closed_stores s', trace := trace s' \<rparr>"
  using assms
  unfolding UnassignPageFromStore_def page_defs collab_defs Let_def
  by (auto split: option.splits if_splits prod.splits)

lemma pool_inv_unassign:
  assumes inv: "pool_inv s" and hp: "heap s page = Some p" and pin: "0 < pin_count p"
    and t: "transaction p = Some t"
  shows "pool_inv (s\<lparr> page_map := (page_map s)((store t, page_id p) := None),
                   heap := (heap s)(page \<mapsto> p\<lparr> transaction := None, is_dirty := False \<rparr>),
                   closed_stores := cs, trace := tr \<rparr>)"
proof -
  have m: "\<And>st pid pg. page_map s (st, pid) = Some pg \<longleftrightarrow>
             (\<exists>q. heap s pg = Some q \<and> assignment q = Some (st, pid))"
    using inv by (simp add: pool_inv_def)
  have own: "page_map s (store t, page_id p) = Some page"
    using m hp t by (simp add: assignment_def)
  have uniq: "\<And>pg q. heap s pg = Some q \<Longrightarrow> assignment q = Some (store t, page_id p) \<Longrightarrow> pg = page"
    using m own by (metis option.inject)
  have other: "\<And>st pid. (st, pid) \<noteq> (store t, page_id p) \<Longrightarrow> page_map s (st, pid) \<noteq> Some page"
    using m hp t by (auto simp: assignment_def)
  have map': "\<forall>st pid pg. ((page_map s)((store t, page_id p) := None)) (st, pid) = Some pg \<longleftrightarrow>
     (\<exists>q. ((heap s)(page \<mapsto> p\<lparr> transaction := None, is_dirty := False \<rparr>)) pg = Some q
           \<and> assignment q = Some (st, pid))"
  proof (intro allI)
    fix st pid pg
    show "((page_map s)((store t, page_id p) := None)) (st, pid) = Some pg \<longleftrightarrow>
     (\<exists>q. ((heap s)(page \<mapsto> p\<lparr> transaction := None, is_dirty := False \<rparr>)) pg = Some q
           \<and> assignment q = Some (st, pid))"
    proof (cases "pg = page")
      case True
      then show ?thesis using other[of st pid] by (auto simp: assignment_def)
    next
      case False
      then show ?thesis using uniq[of pg] m[of st pid pg] by auto
    qed
  qed
  from inv hp pin t have rest: 
    "(\<forall>pg. page_count s \<le> pg \<longrightarrow> ((heap s)(page \<mapsto> p\<lparr> transaction := None, is_dirty := False \<rparr>)) pg = None)"
    "(\<forall>pg. pg < page_count s \<longrightarrow> (\<exists>q. ((heap s)(page \<mapsto> p\<lparr> transaction := None, is_dirty := False \<rparr>)) pg = Some q))"
    "page_count s \<le> page_capacity s" "distinct (free_list s)" "distinct (lru_list s)"
    "(\<forall>pg. pg \<in> set (free_list s) \<longleftrightarrow>
        (\<exists>q. ((heap s)(page \<mapsto> p\<lparr> transaction := None, is_dirty := False \<rparr>)) pg = Some q \<and> pin_count q = 0 \<and> transaction q = None))"
    "(\<forall>pg. pg \<in> set (lru_list s) \<longleftrightarrow>
        (\<exists>q. ((heap s)(page \<mapsto> p\<lparr> transaction := None, is_dirty := False \<rparr>)) pg = Some q \<and> pin_count q = 0 \<and> transaction q \<noteq> None))"
    "(\<forall>pg q. ((heap s)(page \<mapsto> p\<lparr> transaction := None, is_dirty := False \<rparr>)) pg = Some q \<longrightarrow> transaction q = None \<longrightarrow> \<not> is_dirty q)"
    unfolding pool_inv_def by auto
  with map' show ?thesis
    unfolding pool_inv_def by simp
qed

lemma pool_inv_trace [simp]: "pool_inv (s\<lparr> trace := tr \<rparr>) = pool_inv s"
  by (simp add: pool_inv_def)

lemma pool_inv_closed_stores [simp]: "pool_inv (s\<lparr> closed_stores := cs \<rparr>) = pool_inv s"
  by (simp add: pool_inv_def)

lemma pool_inv_UnassignPageFromStore:
  assumes "pool_inv s" "UnassignPageFromStore env page s = Some s'"
    "heap s page = Some p" "0 < pin_count p"
  shows "pool_inv s'"
proof -
  from UnassignPageFromStore_result[OF assms(2,3)] obtain t where
    t: "transaction p = Some t" and
    s': "s' = s\<lparr> page_map := (page_map s)((store t, page_id p) := None),
                   heap := (heap s)(page \<mapsto> p\<lparr> transaction := None, is_dirty := False \<rparr>),
                   closed_stores := closed_stores s', trace := trace s' \<rparr>"
    by blast
  show ?thesis
    by (subst s') (rule pool_inv_unassign[OF assms(1,3,4) t])
qed

lemma pool_inv_update_pinned:
  assumes "pool_inv s" "heap s page = Some p" "0 < pin_count p" "0 < pin_count p'"
    "assignment p' = assignment p" "transaction p' = None \<longrightarrow> \<not> is_dirty p'"
  shows "pool_inv (s\<lparr> heap := (heap s)(page \<mapsto> p') \<rparr>)"
proof -
  have tr: "transaction p' = None \<longleftrightarrow> transaction p = None"
    using assms(5) by (auto simp: assignment_def)
  show ?thesis
    using assms tr unfolding pool_inv_def
    by (auto simp del: not_None_eq)
qed

lemma pool_inv_assign:
  assumes inv: "pool_inv s" and hp: "heap s page = Some p" and pin: "0 < pin_count p"
    and un: "transaction p = None" and miss: "page_map s (st, pid) = None"
    and p': "assignment p' = Some (st, pid)" "0 < pin_count p'"
  shows "pool_inv (s\<lparr> heap := (heap s)(page \<mapsto> p'),
                       page_map := (page_map s)((st, pid) \<mapsto> page) \<rparr>)"
proof -
  have m: "\<And>st pid pg. page_map s (st, pid) = Some pg \<longleftrightarrow>
             (\<exists>q. heap s pg = Some q \<and> assignment q = Some (st, pid))"
    using inv by (simp add: pool_inv_def)
  have nopage: "\<And>st' pid'. page_map s (st', pid') \<noteq> Some page"
    using m hp un by (auto simp: assignment_def)
  have nokey: "\<And>pg q. heap s pg = Some q \<Longrightarrow> assignment q \<noteq> Some (st, pid)"
    using m[of st pid] miss by auto
  have map': "\<forall>st' pid' pg. ((page_map s)((st, pid) \<mapsto> page)) (st', pid') = Some pg \<longleftrightarrow>
     (\<exists>q. ((heap s)(page \<mapsto> p')) pg = Some q \<and> assignment q = Some (st', pid'))"
  proof (intro allI)
    fix st' pid' pg
    show "((page_map s)((st, pid) \<mapsto> page)) (st', pid') = Some pg \<longleftrightarrow>
     (\<exists>q. ((heap s)(page \<mapsto> p')) pg = Some q \<and> assignment q = Some (st', pid'))"
    proof (cases "pg = page")
      case True
      then show ?thesis using nopage[of st' pid'] p' by auto
    next
      case False
      then show ?thesis using nokey[of pg] m[of st' pid' pg] by auto
    qed
  qed
  have tr: "transaction p' \<noteq> None"
    using p' by (auto simp: assignment_def)
  from inv hp pin un tr p' have rest:
    "(\<forall>pg. page_count s \<le> pg \<longrightarrow> ((heap s)(page \<mapsto> p')) pg = None)"
    "(\<forall>pg. pg < page_count s \<longrightarrow> (\<exists>q. ((heap s)(page \<mapsto> p')) pg = Some q))"
    "page_count s \<le> page_capacity s" "distinct (free_list s)" "distinct (lru_list s)"
    "(\<forall>pg. pg \<in> set (free_list s) \<longleftrightarrow>
        (\<exists>q. ((heap s)(page \<mapsto> p')) pg = Some q \<and> pin_count q = 0 \<and> transaction q = None))"
    "(\<forall>pg. pg \<in> set (lru_list s) \<longleftrightarrow>
        (\<exists>q. ((heap s)(page \<mapsto> p')) pg = Some q \<and> pin_count q = 0 \<and> transaction q \<noteq> None))"
    "(\<forall>pg q. ((heap s)(page \<mapsto> p')) pg = Some q \<longrightarrow> transaction q = None \<longrightarrow> \<not> is_dirty q)"
    unfolding pool_inv_def by (auto simp del: not_None_eq)
  with map' show ?thesis
    unfolding pool_inv_def by simp
qed

lemma AssignPageToStore_pre:
  assumes "AssignPageToStore env page st pid fetch_mode s = Some r"
  shows "\<exists>p. heap s page = Some p \<and> transaction p = None"
  using assms unfolding AssignPageToStore_def
  by (auto split: option.splits if_splits)

lemma AssignPageToStore_eq:
  assumes "heap s page = Some p" "transaction p = None"
  shows "AssignPageToStore env page st pid fetch_mode s =
    Some (let status = (if fetch_mode = kFetchPageData
                        then fst (ReadPage_result env st pid) else kSuccess);
              bytes = (if fetch_mode = kFetchPageData
                       then snd (ReadPage_result env st pid)
                       else replicate (page_size s) 205);
              tr = trace s @ [EvAssignPage (init_transaction st) page pid] @
                   (if fetch_mode = kFetchPageData then [EvReadPage st pid] else [])
          in if status = kSuccess
             then (kSuccess,
                   s\<lparr> heap := (heap s)(page \<mapsto>
                          p\<lparr> transaction := Some (init_transaction st), page_id := pid,
                             buffer := bytes \<rparr>),
                      page_map := (page_map s)((st, pid) \<mapsto> page),
                      trace := tr @ [EvPageMapInsert st pid page] \<rparr>)
             else (status,
                   s\<lparr> heap := (heap s)(page \<mapsto>
                          p\<lparr> transaction := None, page_id := pid, is_dirty := False,
                             buffer := bytes \<rparr>),
                      trace := tr @ [EvUnassignPage (init_transaction st) page] \<rparr>))"
  using assms
  unfolding AssignPageToStore_def FetchStorePage_def page_defs collab_defs Let_def
    init_transaction_def
  apply (auto split: option.splits if_splits prod.splits)
  apply (rule arg_cong[where f="\<lambda>q. s\<lparr>heap := (heap s)(page \<mapsto> q), trace := _\<rparr>"])
  apply (rule Page.equality; simp)
  done

lemma pool_inv_AssignPageToStore:
  assumes inv: "pool_inv s" and r: "AssignPageToStore env page st pid fetch_mode s = Some (status, s')"
    and hp: "heap s page = Some p" and pin: "0 < pin_count p"
    and miss: "page_map s (st, pid) = None"
  shows "pool_inv s'"
proof -
  from AssignPageToStore_pre[OF r] hp have un: "transaction p = None" by auto
  note eq = r[unfolded AssignPageToStore_eq[OF hp un] Let_def]
  show ?thesis
  proof (cases "status = kSuccess")
    case True
    with eq obtain bytes tr where
      s': "s' = s\<lparr> heap := (heap s)(page \<mapsto>
                          p\<lparr> transaction := Some (init_transaction st), page_id := pid,
                             buffer := bytes \<rparr>),
                      page_map := (page_map s)((st, pid) \<mapsto> page),
                      trace := tr \<rparr>"
      by (auto split: if_splits)
    show ?thesis
      unfolding s' pool_inv_trace
      by (rule pool_inv_assign[OF inv hp pin un miss])
         (simp_all add: assignment_def init_transaction_def pin)
  next
    case False
    with eq obtain bytes tr where
      s': "s' = s\<lparr> heap := (heap s)(page \<mapsto>
                          p\<lparr> transaction := None, page_id := pid, is_dirty := False,
                             buffer := bytes \<rparr>),
                      trace := tr \<rparr>"
      by (auto split: if_splits)
    show ?thesis
      unfolding s' pool_inv_trace
      by (rule pool_inv_update_pinned[OF inv hp pin])
         (simp_all add: assignment_def un pin)
  qed
qed

lemma pool_inv_new: "pool_inv (PagePool_new shift capacity)"
  by (simp add: pool_inv_def PagePool_new_def)

lemma pool_inv_UnpinUnassignedPage:
  "pool_inv s \<Longrightarrow> UnpinUnassignedPage page s = Some s' \<Longrightarrow> pool_inv s'"
  unfolding UnpinUnassignedPage_def pool_inv_def page_defs Let_def
  by (clarsimp split: option.splits if_splits)

lemma pool_inv_UnpinStorePage:
  "pool_inv s \<Longrightarrow> UnpinStorePage page s = Some s' \<Longrightarrow> pool_inv s'"
  unfolding UnpinStorePage_def pool_inv_def page_defs Let_def
  by (clarsimp split: option.splits if_splits)

lemma pool_inv_MarkPageDirty:
  "pool_inv s \<Longrightarrow> MarkPageDirty page s = Some s' \<Longrightarrow> pool_inv s'"
  unfolding MarkPageDirty_def pool_inv_def page_defs Let_def
  by (clarsimp split: option.splits if_splits)

lemma pool_inv_PinStorePage:
  "pool_inv s \<Longrightarrow> PinStorePage page s = Some s' \<Longrightarrow> pool_inv s'"
  unfolding PinStorePage_def pool_inv_def page_defs Let_def
  by (clarsimp split: option.splits if_splits)

lemma pool_inv_PinTransactionPages:
  "pool_inv s \<Longrightarrow> PinTransactionPages page_list s = Some s' \<Longrightarrow> pool_inv s'"
  by (induction page_list arbitrary: s)
     (auto split: option.splits dest: pool_inv_PinStorePage)

lemma UnassignPageFromStore_page:
  assumes "UnassignPageFromStore env page s = Some s'" "heap s page = Some p"
  shows "heap s' page = Some (p\<lparr> transaction := None, is_dirty := False \<rparr>)"
  using UnassignPageFromStore_result[OF assms]
  by (auto, metis PagePool.select_convs(8) PagePool.surjective PagePool.update_convs(7,8,9,10) fun_upd_same)

lemma UnassignPageFromStore_page_map:
  assumes "UnassignPageFromStore env page s = Some s'" "page_map s key = None"
  shows "page_map s' key = None"
  using assms
  unfolding UnassignPageFromStore_def page_defs collab_defs Let_def
  by (auto split: option.splits if_splits prod.splits)


lemma AllocPage_free:
  assumes "free_list s = page # rest" "heap s page = Some p"
    "transaction p = None" "\<not> is_dirty p"
  shows "AllocPage env s =
     Some (Some page, s\<lparr> free_list := rest, heap := (heap s)(page \<mapsto> AddPin p) \<rparr>)"
  using assms unfolding AllocPage_def by (simp add: AddPin_def)

lemma AllocPage_grow:
  assumes "free_list s = []" "page_count s < page_capacity s"
  shows "AllocPage env s =
     Some (Some (page_count s),
       s\<lparr> page_count := page_count s + 1,
          heap := (heap s)(page_count s \<mapsto> Page_Create (page_size s)),
          trace := trace s @ [EvPageCreate (page_count s)] \<rparr>)"
  using assms unfolding AllocPage_def by (simp add: Let_def)

lemma AllocPage_evict:
  assumes "free_list s = []" "\<not> page_count s < page_capacity s"
    "lru_list s = page # rest" "heap s page = Some p"
  shows "AllocPage env s =
     map_option (\<lambda>s'. (Some page, s'))
       (UnassignPageFromStore env page
          (s\<lparr> heap := (heap s)(page \<mapsto> AddPin p), lru_list := rest \<rparr>))"
  using assms unfolding AllocPage_def by (simp split: option.splits)

lemma AllocPage_full:
  assumes "free_list s = []" "\<not> page_count s < page_capacity s" "lru_list s = []"
  shows "AllocPage env s = Some (None, s)"
  using assms unfolding AllocPage_def by simp

lemma pool_inv_free_listD:
  "pool_inv s \<Longrightarrow> page \<in> set (free_list s) \<Longrightarrow> heap s page = Some p \<Longrightarrow>
     pin_count p = 0 \<and> transaction p = None \<and> \<not> is_dirty p"
  unfolding pool_inv_def by (metis option.inject)

lemma pool_inv_lru_listD:
  "pool_inv s \<Longrightarrow> page \<in> set (lru_list s) \<Longrightarrow> heap s page = Some p \<Longrightarrow>
     pin_count p = 0 \<and> transaction p \<noteq> None"
  unfolding pool_inv_def by (metis option.inject)

lemma pool_inv_list_heap:
  "pool_inv s \<Longrightarrow> page \<in> set (free_list s) \<or> page \<in> set (lru_list s) \<Longrightarrow>
     \<exists>p. heap s page = Some p"
  unfolding pool_inv_def by metis

lemma pool_inv_pop_free:
  assumes "pool_inv s" "free_list s = page # rest" "heap s page = Some p"
  shows "pool_inv (s\<lparr> free_list := rest, heap := (heap s)(page \<mapsto> AddPin p) \<rparr>)"
proof -
  have "pin_count p = 0 \<and> transaction p = None \<and> \<not> is_dirty p"
    using pool_inv_free_listD[OF assms(1) _ assms(3)] assms(2) by simp
  then show ?thesis
    using assms unfolding pool_inv_def AddPin_def assignment_def
    by (auto simp del: not_None_eq)
qed

lemma pool_inv_pop_lru:
  assumes "pool_inv s" "lru_list s = page # rest" "heap s page = Some p"
  shows "pool_inv (s\<lparr> heap := (heap s)(page \<mapsto> AddPin p), lru_list := rest \<rparr>)"
proof -
  have "pin_count p = 0 \<and> transaction p \<noteq> None"
    using pool_inv_lru_listD[OF assms(1) _ assms(3)] assms(2) by simp
  then show ?thesis
    using assms unfolding pool_inv_def AddPin_def assignment_def
    by (auto simp del: not_None_eq)
qed

lemma pool_inv_grow:
  assumes "pool_inv s" "page_count s < page_capacity s"
  shows "pool_inv (s\<lparr> page_count := page_count s + 1,
          heap := (heap s)(page_count s \<mapsto> Page_Create (page_size s)) \<rparr>)"
  using assms unfolding pool_inv_def Page_Create_def assignment_def
  by (auto simp del: not_None_eq)

lemma pool_inv_AllocPage:
  assumes inv: "pool_inv s" and r: "AllocPage env s = Some (res, s')"
  shows "pool_inv s'"
proof (cases "free_list s")
  case (Cons page rest)
  with r obtain p where hp: "heap s page = Some p"
    unfolding AllocPage_def by (auto split: option.splits)
  from r Cons hp have "s' = s\<lparr> free_list := rest, heap := (heap s)(page \<mapsto> AddPin p) \<rparr>"
    unfolding AllocPage_def by (auto simp: Let_def split: if_splits)
  then show ?thesis using pool_inv_pop_free[OF inv Cons hp] by simp
next
  case Nil
  show ?thesis
  proof (cases "page_count s < page_capacity s")
    case True
    from r[unfolded AllocPage_grow[OF Nil True]] pool_inv_grow[OF inv True]
    show ?thesis by auto
  next
    case full: False
    show ?thesis
    proof (cases "lru_list s")
      case Nil': Nil
      from r[unfolded AllocPage_full[OF Nil full Nil']] inv show ?thesis by simp
    next
      case (Cons page rest)
      with r Nil full obtain p where hp: "heap s page = Some p"
        unfolding AllocPage_def by (auto split: option.splits)
      from r[unfolded AllocPage_evict[OF Nil full Cons hp]]
      have u: "UnassignPageFromStore env page
          (s\<lparr> heap := (heap s)(page \<mapsto> AddPin p), lru_list := rest \<rparr>) = Some s'"
        by auto
      show ?thesis
        by (rule pool_inv_UnassignPageFromStore[OF pool_inv_pop_lru[OF inv Cons hp] u,
              where p = "AddPin p"])
           (simp_all add: AddPin_def)
    qed
  qed
qed

lemma AllocPage_page:
  assumes inv: "pool_inv s" and r: "AllocPage env s = Some (Some page, s')"
  shows "\<exists>p. heap s' page = Some p \<and> pin_count p = 1 \<and> transaction p = None \<and> \<not> is_dirty p"
proof (cases "free_list s")
  case (Cons pg rest)
  with r obtain p where hp: "heap s pg = Some p"
    unfolding AllocPage_def by (auto split: option.splits)
  from pool_inv_free_listD[OF inv _ hp] Cons have "pin_count p = 0"
    by simp
  with r Cons hp show ?thesis
    unfolding AllocPage_def by (auto simp: Let_def AddPin_def split: if_splits)
next
  case Nil
  show ?thesis
  proof (cases "page_count s < page_capacity s")
    case True
    from r[unfolded AllocPage_grow[OF Nil True]]
    show ?thesis by (auto simp: Page_Create_def)
  next
    case full: False
    show ?thesis
    proof (cases "lru_list s")
      case Nil': Nil
      from r[unfolded AllocPage_full[OF Nil full Nil']] show ?thesis by simp
    next
      case (Cons pg rest)
      with r Nil full obtain p where hp: "heap s pg = Some p"
        unfolding AllocPage_def by (auto split: option.splits)
      from pool_inv_lru_listD[OF inv _ hp] Cons have pin: "pin_count p = 0"
        by simp
      from r[unfolded AllocPage_evict[OF Nil full Cons hp]]
      have pg: "pg = page" and u: "UnassignPageFromStore env page
          (s\<lparr> heap := (heap s)(page \<mapsto> AddPin p), lru_list := rest \<rparr>) = Some s'"
        by auto
      from UnassignPageFromStore_page[OF u, of "AddPin p"] pin
      show ?thesis by (simp add: AddPin_def)
    qed
  qed
qed

lemma AllocPage_page_map:
  assumes r: "AllocPage env s = Some (res, s')" and miss: "page_map s key = None"
  shows "page_map s' key = None"
  using r miss UnassignPageFromStore_page_map[of env _ _ s' key]
  unfolding AllocPage_def
  by (auto simp: Let_def split: list.splits option.splits if_splits)


lemma pool_inv_StorePage:
  assumes inv: "pool_inv s" and r: "StorePage env st pid fetch_mode s = Some (res, s')"
  shows "pool_inv s'"
proof (cases "page_map s (st, pid)")
  case (Some page)
  with r obtain s1 where "PinStorePage page s = Some s1" "s' = s1"
    unfolding StorePage_def by (auto split: option.splits if_splits)
  then show ?thesis using pool_inv_PinStorePage[OF inv] by simp
next
  case None
  with r obtain a s1 where a: "AllocPage env s = Some (a, s1)"
    unfolding StorePage_def by (auto split: option.splits)
  note inv1 = pool_inv_AllocPage[OF inv a]
  show ?thesis
  proof (cases a)
    case None': None
    with r None a show ?thesis using inv1 unfolding StorePage_def by auto
  next
    case (Some page)
    from AllocPage_page[OF inv a[unfolded Some]] obtain p where
      hp: "heap s1 page = Some p" and pin: "pin_count p = 1" by blast
    from r None a Some obtain status s2 where
      as: "AssignPageToStore env page st pid fetch_mode s1 = Some (status, s2)"
      unfolding StorePage_def by (auto split: option.splits)
    have inv2: "pool_inv s2"
      by (rule pool_inv_AssignPageToStore[OF inv1 as hp _ AllocPage_page_map[OF a None]])
         (simp add: pin)
    show ?thesis
    proof (cases "status = kSuccess")
      case True
      with r None a Some as inv2 show ?thesis unfolding StorePage_def by auto
    next
      case False
      with r None a Some as have "UnpinUnassignedPage page s2 = Some s'"
        unfolding StorePage_def by (auto split: option.splits if_splits)
      then show ?thesis using pool_inv_UnpinUnassignedPage[OF inv2] by simp
    qed
  qed
qed

lemma pool_inv_apply_op:
  assumes "pool_inv s" "apply_op opn s = Some s'"
  shows "pool_inv s'"
  using assms
  by (cases opn)
     (auto dest: pool_inv_StorePage pool_inv_UnpinStorePage pool_inv_UnpinUnassignedPage
        pool_inv_PinTransactionPages pool_inv_AllocPage pool_inv_MarkPageDirty)

lemma pool_inv_run:
  "pool_inv s \<Longrightarrow> run ops s = Some s' \<Longrightarrow> pool_inv s'"
  by (induction ops arbitrary: s)
     (auto split: option.splits dest: pool_inv_apply_op)

lemmas pool_defs = StorePage_def AllocPage_def AssignPageToStore_def FetchStorePage_def
  UnassignPageFromStore_def UnpinUnassignedPage_def UnpinStorePage_def PinStorePage_def
  MarkPageDirty_def PagePool_new_def

lemma dirty_victim_pool_reachable:
  "run [OpStorePage io_ok 1 1 kFetchPageData, OpMarkPageDirty 0,
        OpUnpinStorePage 0] (PagePool_new 2 1) = Some dirty_victim_pool"
  by (simp add: pool_defs page_defs collab_defs init_transaction_def io_ok_def
        Let_def dirty_victim_pool_def)

lemma both_pinned_pool_reachable:
  "run [OpStorePage io_ok 1 1 kFetchPageData, OpStorePage io_ok 1 2 kFetchPageData]
       (PagePool_new 2 2) = Some both_pinned_pool"
  by (simp add: pool_defs page_defs collab_defs init_transaction_def io_ok_def
        Let_def both_pinned_pool_def)

lemma two_free_pool_reachable:
  "run [OpAllocPage io_ok, OpAllocPage io_ok, OpUnpinUnassignedPage 0,
        OpUnpinUnassignedPage 1] (PagePool_new 2 2) = Some two_free_pool"
  by (simp add: pool_defs page_defs collab_defs init_transaction_def io_ok_def
        Let_def two_free_pool_def eval_nat_numeral)

lemma pool_inv_dirty_victim_pool: "pool_inv dirty_victim_pool"
  by (rule pool_inv_run[OF pool_inv_new dirty_victim_pool_reachable])

lemma pool_inv_both_pinned_pool: "pool_inv both_pinned_pool"
  by (rule pool_inv_run[OF pool_inv_new both_pinned_pool_reachable])

lemma pool_inv_two_free_pool: "pool_inv two_free_pool"
  by (rule pool_inv_run[OF pool_inv_new two_free_pool_reachable])

lemma pool_inv_lru_listI:
  "pool_inv s \<Longrightarrow> heap s page = Some p \<Longrightarrow> pin_count p = 0 \<Longrightarrow> transaction p \<noteq> None \<Longrightarrow>
     page \<in> set (lru_list s)"
  unfolding pool_inv_def by metis

lemma pool_inv_page_mapD:
  "pool_inv s \<Longrightarrow> page_map s (st, pid) = Some page \<Longrightarrow>
     \<exists>p t. heap s page = Some p \<and> transaction p = Some t \<and> store t = st \<and> page_id p = pid"
  unfolding pool_inv_def assignment_def by auto

lemma PinStorePage_eq:
  assumes "pool_inv s" "heap s page = Some p" "transaction p \<noteq> None"
  shows "PinStorePage page s =
     Some (s\<lparr> lru_list := (if pin_count p = 0 then remove1 page (lru_list s)
                             else lru_list s),
              heap := (heap s)(page \<mapsto> p\<lparr> pin_count := pin_count p + 1 \<rparr>) \<rparr>)"
  using assms pool_inv_lru_listI[OF assms(1,2)]
  unfolding PinStorePage_def IsUnpinned_def AddPin_def
  by auto

lemma UnassignPageFromStore_eq:
  assumes "heap s page = Some p" "transaction p = Some t"
    "page_map s (store t, page_id p) \<noteq> None"
  shows "UnassignPageFromStore env page s =
     Some (s\<lparr> page_map := (page_map s)((store t, page_id p) := None),
              heap := (heap s)(page \<mapsto> p\<lparr> transaction := None, is_dirty := False \<rparr>),
              closed_stores :=
                (if is_dirty p \<and>
                    WritePage_result env (store t) (page_id p) (buffer p) \<noteq> kSuccess
                 then insert (store t) (closed_stores s) else closed_stores s),
              trace := trace s @ EvPageMapErase (store t) (page_id p) #
                (if is_dirty p
                 then [EvWritePage (store t) (page_id p), EvUnassignPersistedPage t page] @
                      (if WritePage_result env (store t) (page_id p) (buffer p) \<noteq> kSuccess
                       then [EvStoreClose (store t)] else [])
                 else [EvUnassignPage t page]) \<rparr>)"
  using assms
  unfolding UnassignPageFromStore_def page_defs collab_defs Let_def
  by auto

lemma pool_inv_page_mapI:
  "pool_inv s \<Longrightarrow> heap s page = Some p \<Longrightarrow> transaction p = Some t \<Longrightarrow>
     page_map s (store t, page_id p) = Some page"
  unfolding pool_inv_def assignment_def by auto

lemma AllocPage_evict_eq:
  assumes inv: "pool_inv s" and free: "free_list s = []"
    and full: "\<not> page_count s < page_capacity s"
    and lru: "lru_list s = page # rest" and hp: "heap s page = Some p"
    and t: "transaction p = Some t"
  shows "AllocPage env s =
     Some (Some page,
       s\<lparr> lru_list := rest,
          page_map := (page_map s)((store t, page_id p) := None),
          heap := (heap s)(page \<mapsto>
                    p\<lparr> pin_count := 1, transaction := None, is_dirty := False \<rparr>),
          closed_stores :=
            (if is_dirty p \<and>
                WritePage_result env (store t) (page_id p) (buffer p) \<noteq> kSuccess
             then insert (store t) (closed_stores s) else closed_stores s),
          trace := trace s @ EvPageMapErase (store t) (page_id p) #
            (if is_dirty p
             then [EvWritePage (store t) (page_id p), EvUnassignPersistedPage t page] @
                  (if WritePage_result env (store t) (page_id p) (buffer p) \<noteq> kSuccess
                   then [EvStoreClose (store t)] else [])
             else [EvUnassignPage t page]) \<rparr>)"
proof -
  have pin: "pin_count p = 0"
    using pool_inv_lru_listD[OF inv _ hp] lru by simp
  have m: "page_map s (store t, page_id p) = Some page"
    by (rule pool_inv_page_mapI[OF inv hp t])
  let ?s0 = "s\<lparr> heap := (heap s)(page \<mapsto> AddPin p), lru_list := rest \<rparr>"
  have u: "UnassignPageFromStore env page ?s0 = Some
     (?s0\<lparr> page_map := (page_map ?s0)((store t, page_id (AddPin p)) := None),
              heap := (heap ?s0)(page \<mapsto> (AddPin p)\<lparr> transaction := None, is_dirty := False \<rparr>),
              closed_stores :=
                (if is_dirty (AddPin p) \<and>
                    WritePage_result env (store t) (page_id (AddPin p)) (buffer (AddPin p)) \<noteq> kSuccess
                 then insert (store t) (closed_stores ?s0) else closed_stores ?s0),
              trace := trace ?s0 @ EvPageMapErase (store t) (page_id (AddPin p)) #
                (if is_dirty (AddPin p)
                 then [EvWritePage (store t) (page_id (AddPin p)), EvUnassignPersistedPage t page] @
                      (if WritePage_result env (store t) (page_id (AddPin p)) (buffer (AddPin p)) \<noteq> kSuccess
                       then [EvStoreClose (store t)] else [])
                 else [EvUnassignPage t page]) \<rparr>)"
    by (rule UnassignPageFromStore_eq) (simp_all add: AddPin_def t m)
  show ?thesis
    unfolding AllocPage_evict[OF free full lru hp] u
    by (simp add: AddPin_def pin)
qed

lemma AllocPage_some:
  assumes inv: "pool_inv s"
    and room: "free_list s \<noteq> [] \<or> page_count s < page_capacity s \<or> lru_list s \<noteq> []"
  shows "\<exists>page s1. AllocPage env s = Some (Some page, s1)"
proof (cases "free_list s")
  case (Cons page rest)
  then have mem: "page \<in> set (free_list s)" by simp
  from pool_inv_list_heap[OF inv] mem obtain p where hp: "heap s page = Some p" by blast
  from pool_inv_free_listD[OF inv mem hp] AllocPage_free[OF Cons hp]
  show ?thesis by blast
next
  case Nil
  show ?thesis
  proof (cases "page_count s < page_capacity s")
    case True
    from AllocPage_grow[OF Nil True] show ?thesis by blast
  next
    case False
    with room Nil obtain page rest where lru: "lru_list s = page # rest"
      by (cases "lru_list s") auto
    then have mem: "page \<in> set (lru_list s)" by simp
    from pool_inv_list_heap[OF inv] mem obtain p where hp: "heap s page = Some p" by blast
    from pool_inv_lru_listD[OF inv mem hp] obtain t where t: "transaction p = Some t"
      by auto
    from AllocPage_evict_eq[OF inv Nil False lru hp t] show ?thesis by blast
  qed
qed

lemma nested_pair_ex: "\<exists>a b c. x = ((a, b), c)"
  by (metis surj_pair)

lemma OpenLibcFile_size_returns: "\<exists>fp sz w'. OpenLibcFile_size L fp0 w = ((fp, sz), w')"
  by (rule nested_pair_ex)

lemma OpenLibcFile_returns:
  assumes "create_if_missing \<or> \<not> error_if_exists"
  shows "\<exists>fp sz w'. OpenLibcFile L win32 file_path create_if_missing error_if_exists w
           = Some ((fp, sz), w')"
proof (cases error_if_exists)
  case True
  with assms have c: "create_if_missing" by simp
  show ?thesis
  proof (cases win32)
    case w: True
    obtain r w1 where o: "libc_fopen L file_path ''rb'' w = (r, w1)" by (cases "libc_fopen L file_path ''rb'' w")
    obtain r2 w2 where o2: "libc_fopen L file_path ''wb+'' w1 = (r2, w2)" by (cases "libc_fopen L file_path ''wb+'' w1")
    from OpenLibcFile_size_returns[of L r2 w2] show ?thesis
      unfolding OpenLibcFile_def using True c w o o2 by (cases r) auto
  next
    case w: False
    obtain r w1 where o: "libc_fopen L file_path ''wb+x'' w = (r, w1)" by (cases "libc_fopen L file_path ''wb+x'' w")
    from OpenLibcFile_size_returns[of L r w1] show ?thesis
      unfolding OpenLibcFile_def using True c w o by auto
  qed
next
  case False
  define w1 where "w1 = (if create_if_missing then
              (case libc_fopen L file_path ''ab+'' w of
                 (Some f, w') \<Rightarrow> libc_fclose L f w'
               | (None, w') \<Rightarrow> w')
            else w)"
  obtain r w2 where o: "libc_fopen L file_path ''rb+'' w1 = (r, w2)" by (cases "libc_fopen L file_path ''rb+'' w1")
  from OpenLibcFile_size_returns[of L r w2] show ?thesis
    unfolding OpenLibcFile_def Let_def using False o by (auto simp: w1_def)
qed

lemma OpenLibcFile_missing:
  assumes "fst (libc_fopen L file_path ''rb+'' w) = None"
  shows "OpenLibcFile L win32 file_path False False w
       = Some ((None, 0), snd (libc_fopen L file_path ''rb+'' w))"
  using assms unfolding OpenLibcFile_def OpenLibcFile_size_def Let_def
  by (cases "libc_fopen L file_path ''rb+'' w") simp

lemma release_pages_eq:
  assumes "distinct ps" "\<forall>page\<in>set ps. heap s page \<noteq> None"
  shows "release_pages ps s =
     Some (s\<lparr> heap := (\<lambda>page. if page \<in> set ps then None else heap s page),
              trace := trace s @ map EvPageRelease ps \<rparr>)"
  using assms
proof (induction ps arbitrary: s)
  case Nil
  then show ?case by simp
next
  case (Cons page rest)
  let ?s1 = "s\<lparr> heap := (heap s)(page := None),
               trace := trace s @ [EvPageRelease page] \<rparr>"
  from Cons.prems have r: "Page_Release page s = Some ?s1"
    unfolding Page_Release_def by (auto split: option.splits)
  from Cons.prems have pre: "distinct rest" "\<forall>q\<in>set rest. heap ?s1 q \<noteq> None"
    by auto
  have heq: "(\<lambda>q. if q \<in> set rest then None else heap ?s1 q) =
             (\<lambda>q. if q \<in> set (page # rest) then None else heap s q)"
    by (rule ext) simp
  show ?case
    by (simp add: r Cons.IH[OF pre] heq del: set_simps) 
qed

lemma pinned_pages_zero:
  assumes "pinned_pages s = 0" "page < page_count s" "heap s page = Some p"
  shows "pin_count p = 0"
proof -
  have "\<forall>x\<in>set [0..<page_count s].
          (case heap s x of None \<Rightarrow> 0 | Some p \<Rightarrow> pin_count p) = 0"
    using assms(1) unfolding pinned_pages_def by simp
  with assms(2,3) show ?thesis by force
qed

lemma StorePage_miss_fetch_fails:
  assumes miss: "page_map s (st, pid) = None"
    and a: "AllocPage env s = Some (Some page, s1)"
    and h1: "heap s1 page = Some p" and pin: "pin_count p = 1"
    and un: "transaction p = None"
    and rd: "ReadPage_result env st pid = (status, bytes)" and fail: "status \<noteq> kSuccess"
  shows "StorePage env st pid kFetchPageData s =
       Some ((status, None),
         s1\<lparr> heap := (heap s1)(page \<mapsto>
                 \<lparr> pin_count = 0, transaction = None, page_id = pid, is_dirty = False,
                   buffer = bytes \<rparr>),
             free_list := free_list s1 @ [page],
             trace := trace s1 @
               [EvAssignPage (init_transaction st) page pid, EvReadPage st pid,
                EvUnassignPage (init_transaction st) page] \<rparr>)"
proof -
  define p2 where "p2 = p\<lparr> transaction := None, page_id := pid, is_dirty := False,
                             buffer := bytes \<rparr>"
  define s2 where "s2 = s1\<lparr> heap := (heap s1)(page \<mapsto> p2),
      trace := (trace s1 @ [EvAssignPage (init_transaction st) page pid] @ [EvReadPage st pid])
                 @ [EvUnassignPage (init_transaction st) page] \<rparr>"
  have as: "AssignPageToStore env page st pid kFetchPageData s1 = Some (status, s2)"
    unfolding AssignPageToStore_eq[OF h1 un] Let_def
    using rd fail by (simp add: s2_def p2_def)
  define p3 where "p3 = \<lparr> pin_count = 0, transaction = None, page_id = pid,
                          is_dirty = False, buffer = bytes \<rparr>"
  have p3: "p2\<lparr> pin_count := pin_count p2 - 1 \<rparr> = p3"
    by (rule Page.equality) (simp_all add: p2_def p3_def pin)
  define s3 where "s3 = s1\<lparr> heap := (heap s1)(page \<mapsto> p3),
             free_list := free_list s1 @ [page],
             trace := trace s1 @
               [EvAssignPage (init_transaction st) page pid, EvReadPage st pid,
                EvUnassignPage (init_transaction st) page] \<rparr>"
  have h2: "heap s2 page = Some p2" by (simp add: s2_def)
  have un2: "transaction p2 = None" by (simp add: p2_def)
  have rp: "RemovePin p2 = Some p3"
    unfolding RemovePin_def using p3 by (simp add: p2_def pin)
  have un3: "IsUnpinned p3" by (simp add: IsUnpinned_def p3_def)
  have s23: "s2\<lparr> heap := (heap s2)(page \<mapsto> p3), free_list := free_list s2 @ [page] \<rparr> = s3"
    by (simp add: s2_def s3_def)
  have up: "UnpinUnassignedPage page s2 = Some s3"
    unfolding UnpinUnassignedPage_def Let_def
    using h2 un2 rp un3 s23 by simp
  have h3: "heap s3 page = Some p3" by (simp add: s3_def)
  have sp: "StorePage env st pid kFetchPageData s = Some ((status, None), s3)"
    unfolding StorePage_def using miss a as fail up h3 un3
    by simp
  then show ?thesis unfolding s3_def p3_def .
qed

lemma StorePage_miss_fetch_ok:
  assumes miss: "page_map s (st, pid) = None"
    and a: "AllocPage env s = Some (Some page, s1)"
    and h1: "heap s1 page = Some p" and un: "transaction p = None"
    and ok: "fetch_mode = kFetchPageData \<longrightarrow> fst (ReadPage_result env st pid) = kSuccess"
  shows "StorePage env st pid fetch_mode s =
       Some ((kSuccess, Some page),
         s1\<lparr> heap := (heap s1)(page \<mapsto>
                 p\<lparr> transaction := Some (init_transaction st), page_id := pid,
                    buffer := (if fetch_mode = kFetchPageData
                               then snd (ReadPage_result env st pid)
                               else replicate (page_size s1) 205) \<rparr>),
             page_map := (page_map s1)((st, pid) \<mapsto> page),
             trace := trace s1 @ [EvAssignPage (init_transaction st) page pid] @
               (if fetch_mode = kFetchPageData then [EvReadPage st pid] else []) @
               [EvPageMapInsert st pid page] \<rparr>)"
proof -
  have as: "AssignPageToStore env page st pid fetch_mode s1 =
       Some (kSuccess,
         s1\<lparr> heap := (heap s1)(page \<mapsto>
                 p\<lparr> transaction := Some (init_transaction st), page_id := pid,
                    buffer := (if fetch_mode = kFetchPageData
                               then snd (ReadPage_result env st pid)
                               else replicate (page_size s1) 205) \<rparr>),
             page_map := (page_map s1)((st, pid) \<mapsto> page),
             trace := trace s1 @ [EvAssignPage (init_transaction st) page pid] @
               (if fetch_mode = kFetchPageData then [EvReadPage st pid] else []) @
               [EvPageMapInsert st pid page] \<rparr>)"
    unfolding AssignPageToStore_eq[OF h1 un] Let_def
    using ok by simp
  show ?thesis
    unfolding StorePage_def using miss a as by simp
qed

section \<open>Claims\<close>

text \<open>C1. In every pool state reachable from a freshly constructed pool by a sequence of
  operations, every frame is in the free list exactly when it is unpinned and
  unassigned, in the LRU list exactly when it is unpinned and assigned, and in no list
  when it is pinned; no frame is in both lists or twice in one, and the lists hold only
  frames. The resident map sends a key to a frame exactly when the frame's assignment
  is that key, and no two frames share an assignment.\<close>

theorem reachable_invariant:
  assumes "run ops (PagePool_new shift capacity) = Some s"
  shows "(\<forall>page p. heap s page = Some p \<longrightarrow>
            (page \<in> set (free_list s) \<longleftrightarrow> pin_count p = 0 \<and> transaction p = None) \<and>
            (page \<in> set (lru_list s) \<longleftrightarrow> pin_count p = 0 \<and> transaction p \<noteq> None) \<and>
            (0 < pin_count p \<longrightarrow> page \<notin> set (free_list s) \<and> page \<notin> set (lru_list s)) \<and>
            \<not> (page \<in> set (free_list s) \<and> page \<in> set (lru_list s))) \<and>
         distinct (free_list s) \<and> distinct (lru_list s) \<and>
         (\<forall>page. page \<in> set (free_list s) \<or> page \<in> set (lru_list s) \<longrightarrow>
            heap s page \<noteq> None) \<and>
         (\<forall>st pid page. page_map s (st, pid) = Some page \<longleftrightarrow>
            (\<exists>p. heap s page = Some p \<and> assignment p = Some (st, pid))) \<and>
         (\<forall>page page' p p'. heap s page = Some p \<and> heap s page' = Some p' \<and>
            assignment p = assignment p' \<and> assignment p \<noteq> None \<longrightarrow> page = page')"
proof -
  have inv: "pool_inv s"
    by (rule pool_inv_run[OF pool_inv_new assms])
  have m: "\<And>st pid pg. page_map s (st, pid) = Some pg \<longleftrightarrow>
             (\<exists>q. heap s pg = Some q \<and> assignment q = Some (st, pid))"
    using inv by (simp add: pool_inv_def)
  have uniq: "\<forall>page page' p p'. heap s page = Some p \<and> heap s page' = Some p' \<and>
            assignment p = assignment p' \<and> assignment p \<noteq> None \<longrightarrow> page = page'"
  proof (intro allI impI, elim conjE)
    fix page page' p p'
    assume h: "heap s page = Some p" "heap s page' = Some p'"
      "assignment p = assignment p'" "assignment p \<noteq> None"
    then obtain st pid where k: "assignment p = Some (st, pid)" by auto
    have "page_map s (st, pid) = Some page" using m h(1) k by blast
    moreover have "page_map s (st, pid) = Some page'" using m h(2,3) k by auto
    ultimately show "page = page'" by simp
  qed
  have lists: "\<forall>page p. heap s page = Some p \<longrightarrow>
            (page \<in> set (free_list s) \<longleftrightarrow> pin_count p = 0 \<and> transaction p = None) \<and>
            (page \<in> set (lru_list s) \<longleftrightarrow> pin_count p = 0 \<and> transaction p \<noteq> None) \<and>
            (0 < pin_count p \<longrightarrow> page \<notin> set (free_list s) \<and> page \<notin> set (lru_list s)) \<and>
            \<not> (page \<in> set (free_list s) \<and> page \<in> set (lru_list s))"
    using inv unfolding pool_inv_def by (auto simp del: not_None_eq)
  have dist: "distinct (free_list s)" "distinct (lru_list s)"
    using inv by (simp_all add: pool_inv_def)
  have inheap: "\<forall>page. page \<in> set (free_list s) \<or> page \<in> set (lru_list s) \<longrightarrow>
            heap s page \<noteq> None"
    using pool_inv_list_heap[OF inv] by auto
  from lists dist inheap m uniq show ?thesis by blast
qed

theorem reachable_invariant_witness:
  "\<exists>s. run [OpStorePage io_write_fails 1 1 kFetchPageData, OpMarkPageDirty 0,
             OpUnpinStorePage 0, OpStorePage io_write_fails 1 2 kFetchPageData]
            (PagePool_new 2 1) = Some s \<and>
       distinct (free_list s) \<and> distinct (lru_list s) \<and>
       (\<forall>st pid page. page_map s (st, pid) = Some page \<longleftrightarrow>
            (\<exists>p. heap s page = Some p \<and> assignment p = Some (st, pid)))"
proof -
  have "run [OpStorePage io_write_fails 1 1 kFetchPageData, OpMarkPageDirty 0,
             OpUnpinStorePage 0, OpStorePage io_write_fails 1 2 kFetchPageData]
            (PagePool_new 2 1) \<noteq> None"
    by (simp add: pool_defs page_defs collab_defs init_transaction_def io_write_fails_def
          Let_def)
  then obtain s where r: "run [OpStorePage io_write_fails 1 1 kFetchPageData,
             OpMarkPageDirty 0, OpUnpinStorePage 0,
             OpStorePage io_write_fails 1 2 kFetchPageData] (PagePool_new 2 1) = Some s"
    by blast
  from reachable_invariant[OF r] r show ?thesis by blast
qed

text \<open>C3. When the free list is empty, the page count has reached the capacity and the
  LRU list is empty, \<^verbatim>\<open>StorePage\<close> on a key that is not resident returns
  \<^verbatim>\<open>kPoolFull\<close>, writes no result, and leaves the whole state as it was: no frame,
  list or map entry changes and nothing is called.\<close>

theorem StorePage_pool_full:
  assumes "free_list s = []" "page_capacity s \<le> page_count s" "lru_list s = []"
    "page_map s (st, pid) = None"
  shows "StorePage env st pid fetch_mode s = Some ((kPoolFull, None), s)"
  using assms unfolding StorePage_def AllocPage_def by simp

theorem StorePage_pool_full_witness:
  "free_list both_pinned_pool = [] \<and>
   page_capacity both_pinned_pool \<le> page_count both_pinned_pool \<and>
   lru_list both_pinned_pool = [] \<and>
   page_map both_pinned_pool (1, 3) = None \<and>
   StorePage io_ok 1 3 kFetchPageData both_pinned_pool
     = Some ((kPoolFull, None), both_pinned_pool)"
  using StorePage_pool_full[of both_pinned_pool 1 3 io_ok kFetchPageData]
  by (simp add: both_pinned_pool_def)

text \<open>C7. The free list is not a stack. \<^verbatim>\<open>UnpinUnassignedPage\<close> appends the freed
  frame at the back and \<^verbatim>\<open>AllocPage\<close> takes the front: after frame 0 and then
  frame 1 are freed, the next allocation reuses frame 0, the least recently freed.\<close>

theorem free_list_reuses_least_recently_freed:
  "run [OpAllocPage io_ok, OpAllocPage io_ok, OpUnpinUnassignedPage 0,
        OpUnpinUnassignedPage 1] (PagePool_new 2 2) = Some two_free_pool \<and>
   free_list two_free_pool = [0, 1] \<and>
   map_option fst (AllocPage io_ok two_free_pool) = Some (Some 0)"
  by (simp add: pool_defs page_defs collab_defs init_transaction_def io_ok_def
        Let_def two_free_pool_def eval_nat_numeral)

theorem free_list_reuses_least_recently_freed_witness:
  "free_list two_free_pool = [0, 1] \<and>
   map_option fst (AllocPage io_ok two_free_pool) = Some (Some 0)"
  using free_list_reuses_least_recently_freed by simp

text \<open>C6. When the key is in the resident map, \<^verbatim>\<open>StorePage\<close> returns
  \<^verbatim>\<open>kSuccess\<close> and the frame the map holds, whatever the fetch mode: the frame is
  removed from the LRU list if it was unpinned, the list is untouched if it was pinned,
  and the pin count goes up by one. Nothing else changes: no frame is allocated, no
  store call is made (the log is unchanged), and a further \<^verbatim>\<open>StorePage\<close> on the key
  returns the same frame again.\<close>

theorem StorePage_hit:
  assumes "pool_inv s" "page_map s (st, pid) = Some page"
  shows "\<exists>p s'. heap s page = Some p \<and>
      StorePage env st pid fetch_mode s = Some ((kSuccess, Some page), s') \<and>
      s' = s\<lparr> lru_list := (if pin_count p = 0 then remove1 page (lru_list s)
                              else lru_list s),
               heap := (heap s)(page \<mapsto> p\<lparr> pin_count := pin_count p + 1 \<rparr>) \<rparr> \<and>
      page \<notin> set (lru_list s') \<and>
      (0 < pin_count p \<longrightarrow> lru_list s' = lru_list s) \<and>
      page_count s' = page_count s \<and> trace s' = trace s \<and>
      (\<forall>env' fetch_mode'. \<exists>s''.
          StorePage env' st pid fetch_mode' s' = Some ((kSuccess, Some page), s''))"
proof -
  from pool_inv_page_mapD[OF assms] obtain p t where
    hp: "heap s page = Some p" and t: "transaction p = Some t"
    and k: "store t = st" "page_id p = pid" by blast
  define s' where "s' = s\<lparr> lru_list := (if pin_count p = 0 then remove1 page (lru_list s)
                              else lru_list s),
               heap := (heap s)(page \<mapsto> p\<lparr> pin_count := pin_count p + 1 \<rparr>) \<rparr>"
  have pin: "PinStorePage page s = Some s'"
    using PinStorePage_eq[OF assms(1) hp] t by (simp add: s'_def)
  have sp: "StorePage env st pid fetch_mode s = Some ((kSuccess, Some page), s')"
    unfolding StorePage_def using assms(2) hp t k pin by simp
  have inv': "pool_inv s'"
    by (rule pool_inv_PinStorePage[OF assms(1) pin])
  have notlru: "page \<notin> set (lru_list s')"
  proof
    assume "page \<in> set (lru_list s')"
    from pool_inv_lru_listD[OF inv' this, of "p\<lparr> pin_count := pin_count p + 1 \<rparr>"]
    show False by (simp add: s'_def)
  qed
  have map': "page_map s' (st, pid) = Some page"
    using assms(2) by (simp add: s'_def)
  have again: "\<forall>env' fetch_mode'. \<exists>s''.
          StorePage env' st pid fetch_mode' s' = Some ((kSuccess, Some page), s'')"
  proof (intro allI)
    fix env' fetch_mode'
    from pool_inv_page_mapD[OF inv' map'] obtain p' t' where
      hp': "heap s' page = Some p'" and t': "transaction p' = Some t'"
      and k': "store t' = st" "page_id p' = pid" by blast
    from PinStorePage_eq[OF inv' hp'] t'
    show "\<exists>s''. StorePage env' st pid fetch_mode' s' = Some ((kSuccess, Some page), s'')"
      unfolding StorePage_def using map' hp' t' k' by simp
  qed
  show ?thesis
    using hp sp notlru again by (intro exI[of _ p] exI[of _ s']) (simp add: s'_def)
qed

theorem StorePage_hit_witness:
  "pool_inv dirty_victim_pool \<and> page_map dirty_victim_pool (1, 1) = Some 0 \<and>
   map_option fst (StorePage io_all_fail 1 1 kFetchPageData dirty_victim_pool)
     = Some (kSuccess, Some 0) \<and>
   map_option (\<lambda>r. lru_list (snd r)) (StorePage io_all_fail 1 1 kFetchPageData dirty_victim_pool)
     = Some [] \<and>
   map_option (\<lambda>r. trace (snd r)) (StorePage io_all_fail 1 1 kFetchPageData dirty_victim_pool)
     = Some (trace dirty_victim_pool)"
proof -
  have m: "page_map dirty_victim_pool (1, 1) = Some 0"
    by (simp add: dirty_victim_pool_def)
  from StorePage_hit[OF pool_inv_dirty_victim_pool m, of io_all_fail kFetchPageData]
  obtain p s' where
    "heap dirty_victim_pool 0 = Some p"
    "StorePage io_all_fail 1 1 kFetchPageData dirty_victim_pool = Some ((kSuccess, Some 0), s')"
    "s' = dirty_victim_pool\<lparr> lru_list := (if pin_count p = 0 then remove1 0 (lru_list dirty_victim_pool)
                              else lru_list dirty_victim_pool),
               heap := (heap dirty_victim_pool)(0 \<mapsto> p\<lparr> pin_count := pin_count p + 1 \<rparr>) \<rparr>"
    by blast
  then show ?thesis
    using pool_inv_dirty_victim_pool m by (auto simp: dirty_victim_pool_def)
qed

text \<open>C8. Eviction of a dirty frame, as its caller sees it. Before the call the old
  key is in the resident map. When \<^verbatim>\<open>UnassignPageFromStore\<close> returns, and likewise
  when \<^verbatim>\<open>AllocPage\<close> returns the frame it evicted, the old key is no longer in the
  map and \<^verbatim>\<open>WritePage\<close> for the old page is among the calls made since the call
  began: the caller never finds the entry removed without the write-back having been
  called. The calls of the eviction are the erasure of the entry, \<^verbatim>\<open>WritePage\<close>,
  \<^verbatim>\<open>UnassignPersistedPage\<close>, and \<^verbatim>\<open>Close\<close> if the write failed.\<close>

theorem eviction_write_back_before_key_leaves_map:
  "(heap s page = Some p \<and> transaction p = Some t \<and> is_dirty p \<and>
    page_map s (store t, page_id p) \<noteq> None \<longrightarrow>
      (\<exists>s'. UnassignPageFromStore env page s = Some s' \<and>
         page_map s' (store t, page_id p) = None \<and>
         EvWritePage (store t) (page_id p) \<in> set (drop (length (trace s)) (trace s')) \<and>
         drop (length (trace s)) (trace s') =
           [EvPageMapErase (store t) (page_id p), EvWritePage (store t) (page_id p),
            EvUnassignPersistedPage t page] @
           (if WritePage_result env (store t) (page_id p) (buffer p) \<noteq> kSuccess
            then [EvStoreClose (store t)] else []))) \<and>
   (pool_inv s \<and> free_list s = [] \<and> \<not> page_count s < page_capacity s \<and>
    lru_list s = page # rest \<and> heap s page = Some p \<and> transaction p = Some t \<and>
    is_dirty p \<longrightarrow>
      page_map s (store t, page_id p) = Some page \<and>
      (\<exists>s'. AllocPage env s = Some (Some page, s') \<and>
         page_map s' (store t, page_id p) = None \<and>
         EvWritePage (store t) (page_id p) \<in> set (drop (length (trace s)) (trace s'))))"
proof (intro conjI impI)
  assume h: "heap s page = Some p \<and> transaction p = Some t \<and> is_dirty p \<and>
    page_map s (store t, page_id p) \<noteq> None"
  from h have hp: "heap s page = Some p" and t: "transaction p = Some t"
    and d: "is_dirty p" and m: "page_map s (store t, page_id p) \<noteq> None" by simp_all
  show "\<exists>s'. UnassignPageFromStore env page s = Some s' \<and>
         page_map s' (store t, page_id p) = None \<and>
         EvWritePage (store t) (page_id p) \<in> set (drop (length (trace s)) (trace s')) \<and>
         drop (length (trace s)) (trace s') =
           [EvPageMapErase (store t) (page_id p), EvWritePage (store t) (page_id p),
            EvUnassignPersistedPage t page] @
           (if WritePage_result env (store t) (page_id p) (buffer p) \<noteq> kSuccess
            then [EvStoreClose (store t)] else [])"
    unfolding UnassignPageFromStore_eq[OF hp t m] using d by simp
next
  assume h: "pool_inv s \<and> free_list s = [] \<and> \<not> page_count s < page_capacity s \<and>
    lru_list s = page # rest \<and> heap s page = Some p \<and> transaction p = Some t \<and>
    is_dirty p"
  then have inv: "pool_inv s" and free: "free_list s = []"
    and full: "\<not> page_count s < page_capacity s" and lru: "lru_list s = page # rest"
    and hp: "heap s page = Some p" and t: "transaction p = Some t" and d: "is_dirty p"
    by simp_all
  show "page_map s (store t, page_id p) = Some page"
    by (rule pool_inv_page_mapI[OF inv hp t])
  show "\<exists>s'. AllocPage env s = Some (Some page, s') \<and>
         page_map s' (store t, page_id p) = None \<and>
         EvWritePage (store t) (page_id p) \<in> set (drop (length (trace s)) (trace s'))"
    unfolding AllocPage_evict_eq[OF inv free full lru hp t] using d by simp
qed

theorem eviction_write_back_before_key_leaves_map_witness:
  "pool_inv dirty_victim_pool \<and> lru_list dirty_victim_pool = [0] \<and>
   page_map dirty_victim_pool (1, 1) = Some 0 \<and>
   EvWritePage 1 1 \<notin> set (trace dirty_victim_pool) \<and>
   map_option (\<lambda>r. page_map (snd r) (1, 1)) (AllocPage io_ok dirty_victim_pool)
     = Some None \<and>
   map_option (\<lambda>r. EvWritePage 1 1 \<in> set (trace (snd r))) (AllocPage io_ok dirty_victim_pool)
     = Some True \<and>
   page_map evicting_pool (1, 1) \<noteq> None \<and>
   map_option (\<lambda>s'. page_map s' (1, 1)) (UnassignPageFromStore io_ok 0 evicting_pool)
     = Some None \<and>
   map_option (\<lambda>s'. EvWritePage 1 1 \<in> set (trace s'))
     (UnassignPageFromStore io_ok 0 evicting_pool) = Some True"
proof -
  have hyps: "free_list dirty_victim_pool = []"
    "\<not> page_count dirty_victim_pool < page_capacity dirty_victim_pool"
    "lru_list dirty_victim_pool = 0 # []"
    "heap dirty_victim_pool 0 = Some \<lparr> pin_count = 0, transaction = Some (TransactionImpl 1 0),
                       page_id = 1, is_dirty = True, buffer = [1, 2, 3, 4] \<rparr>"
    "EvWritePage 1 1 \<notin> set (trace dirty_victim_pool)"
    by (simp_all add: dirty_victim_pool_def)
  have hyps': "heap evicting_pool 0 = Some \<lparr> pin_count = 1, transaction = Some (TransactionImpl 1 0),
                       page_id = 1, is_dirty = True, buffer = [1, 2, 3, 4] \<rparr>"
    "page_map evicting_pool (1, 1) \<noteq> None"
    by (simp_all add: evicting_pool_def dirty_victim_pool_def)
  from eviction_write_back_before_key_leaves_map[of dirty_victim_pool 0
      "\<lparr> pin_count = 0, transaction = Some (TransactionImpl 1 0),
            page_id = 1, is_dirty = True, buffer = [1, 2, 3, 4] \<rparr>"
      "TransactionImpl 1 0" io_ok "[]"] pool_inv_dirty_victim_pool hyps
  have A: "page_map dirty_victim_pool (1, 1) = Some 0 \<and>
      (\<exists>s'. AllocPage io_ok dirty_victim_pool = Some (Some 0, s') \<and>
         page_map s' (1, 1) = None \<and>
         EvWritePage 1 1 \<in> set (drop (length (trace dirty_victim_pool)) (trace s')))"
    by simp
  have prem: "heap evicting_pool 0 =
        Some \<lparr> pin_count = 1, transaction = Some (TransactionImpl 1 0),
               page_id = 1, is_dirty = True, buffer = [1, 2, 3, 4] \<rparr> \<and>
      transaction \<lparr> pin_count = 1, transaction = Some (TransactionImpl 1 0),
               page_id = 1, is_dirty = True, buffer = [1, 2, 3, 4] \<rparr>
        = Some (TransactionImpl 1 0) \<and>
      is_dirty \<lparr> pin_count = 1, transaction = Some (TransactionImpl 1 0),
               page_id = 1, is_dirty = True, buffer = [1, 2, 3, 4] \<rparr> \<and>
      page_map evicting_pool (store (TransactionImpl 1 0),
        page_id \<lparr> pin_count = 1, transaction = Some (TransactionImpl 1 0),
               page_id = 1, is_dirty = True, buffer = [1, 2, 3, 4] \<rparr>) \<noteq> None"
    using hyps' by simp
  note B' = eviction_write_back_before_key_leaves_map[of evicting_pool 0
      "\<lparr> pin_count = 1, transaction = Some (TransactionImpl 1 0),
            page_id = 1, is_dirty = True, buffer = [1, 2, 3, 4] \<rparr>"
      "TransactionImpl 1 0" io_ok "[]", THEN conjunct1, THEN mp, OF prem]
  from B' have B: "\<exists>s'. UnassignPageFromStore io_ok 0 evicting_pool = Some s' \<and>
         page_map s' (1, 1) = None \<and>
         EvWritePage 1 1 \<in> set (drop (length (trace evicting_pool)) (trace s'))"
    by auto
  from A B show ?thesis
    using pool_inv_dirty_victim_pool hyps hyps'
    by (auto dest: in_set_dropD)
qed

text \<open>C2. A \<^verbatim>\<open>StorePage\<close> miss that evicts a dirty victim whose write-back fails:
  \<^verbatim>\<open>UnassignPersistedPage\<close> is still called on the victim and \<^verbatim>\<open>Close\<close> on the
  victim's store, whatever happens next, and the write status is dropped:
  \<^verbatim>\<open>StorePage\<close> returns the status of the fetch of the requested page. When the fetch
  succeeds (the data is ignored, or \<^verbatim>\<open>ReadPage\<close> returns \<^verbatim>\<open>kSuccess\<close>) that is
  \<^verbatim>\<open>kSuccess\<close> with the victim's frame, pinned once and assigned to the requested
  key. When \<^verbatim>\<open>ReadPage\<close> fails, \<^verbatim>\<open>StorePage\<close> returns the status of the read and
  no frame; the victim's frame is then unpinned, unassigned, clean and on the free
  list, and the requested key is not resident.\<close>

theorem StorePage_eviction_write_failure:
  assumes inv: "pool_inv s" and miss: "page_map s (st, pid) = None"
    and free: "free_list s = []" and full: "\<not> page_count s < page_capacity s"
    and lru: "lru_list s = victim # rest" and hv: "heap s victim = Some p"
    and t: "transaction p = Some t" and dirty: "is_dirty p"
    and wfail: "WritePage_result env (store t) (page_id p) (buffer p) \<noteq> kSuccess"
    and fs: "fetch_status = (if fetch_mode = kFetchPageData
                             then fst (ReadPage_result env st pid) else kSuccess)"
  shows "\<exists>res s'. StorePage env st pid fetch_mode s = Some ((fetch_status, res), s') \<and>
     trace s' = trace s @
       [EvPageMapErase (store t) (page_id p), EvWritePage (store t) (page_id p),
        EvUnassignPersistedPage t victim, EvStoreClose (store t),
        EvAssignPage (init_transaction st) victim pid] @
       (if fetch_mode = kFetchPageData then [EvReadPage st pid] else []) @
       [if fetch_status = kSuccess then EvPageMapInsert st pid victim
        else EvUnassignPage (init_transaction st) victim] \<and>
     store t \<in> closed_stores s' \<and>
     page_map s' (store t, page_id p) = None \<and>
     pool_inv s' \<and>
     (fetch_status = kSuccess \<longrightarrow>
        res = Some victim \<and>
        (\<exists>p'. heap s' victim = Some p' \<and> pin_count p' = 1 \<and>
              assignment p' = Some (st, pid)) \<and>
        page_map s' (st, pid) = Some victim) \<and>
     (fetch_status \<noteq> kSuccess \<longrightarrow>
        res = None \<and>
        (\<exists>p'. heap s' victim = Some p' \<and> pin_count p' = 0 \<and> transaction p' = None \<and>
              \<not> is_dirty p') \<and>
        victim \<in> set (free_list s') \<and>
        page_map s' (st, pid) = None)"
proof -
  define p1 where "p1 = p\<lparr> pin_count := 1, transaction := None, is_dirty := False \<rparr>"
  define s1 where "s1 = s\<lparr> lru_list := rest,
          page_map := (page_map s)((store t, page_id p) := None),
          heap := (heap s)(victim \<mapsto> p1),
          closed_stores := insert (store t) (closed_stores s),
          trace := trace s @
            [EvPageMapErase (store t) (page_id p), EvWritePage (store t) (page_id p),
             EvUnassignPersistedPage t victim, EvStoreClose (store t)] \<rparr>"
  have a: "AllocPage env s = Some (Some victim, s1)"
    unfolding AllocPage_evict_eq[OF inv free full lru hv t]
    using dirty wfail by (simp add: s1_def p1_def)
  have h1: "heap s1 victim = Some p1" by (simp add: s1_def)
  have un1: "transaction p1 = None" by (simp add: p1_def)
  have pin1: "pin_count p1 = 1" by (simp add: p1_def)
  have old: "page_map s (store t, page_id p) = Some victim"
    by (rule pool_inv_page_mapI[OF inv hv t])
  have ne: "(store t, page_id p) \<noteq> (st, pid)"
    using old miss by auto
  have miss1: "page_map s1 (st, pid) = None"
    by (rule AllocPage_page_map[OF a miss])
  show ?thesis
  proof (cases "fetch_status = kSuccess")
    case True
    with fs have ok: "fetch_mode = kFetchPageData \<longrightarrow>
                        fst (ReadPage_result env st pid) = kSuccess"
      by (simp split: if_splits)
    define p2 where "p2 = p1\<lparr> transaction := Some (init_transaction st), page_id := pid,
                    buffer := (if fetch_mode = kFetchPageData
                               then snd (ReadPage_result env st pid)
                               else replicate (page_size s1) 205) \<rparr>"
    define s2 where "s2 = s1\<lparr> heap := (heap s1)(victim \<mapsto> p2),
             page_map := (page_map s1)((st, pid) \<mapsto> victim),
             trace := trace s1 @ [EvAssignPage (init_transaction st) victim pid] @
               (if fetch_mode = kFetchPageData then [EvReadPage st pid] else []) @
               [EvPageMapInsert st pid victim] \<rparr>"
    have sp: "StorePage env st pid fetch_mode s = Some ((fetch_status, Some victim), s2)"
      unfolding StorePage_miss_fetch_ok[OF miss a h1 un1 ok] s2_def p2_def
      using True by simp
    have inv2: "pool_inv s2" by (rule pool_inv_StorePage[OF inv sp])
    have tr: "trace s2 = trace s @
       [EvPageMapErase (store t) (page_id p), EvWritePage (store t) (page_id p),
        EvUnassignPersistedPage t victim, EvStoreClose (store t),
        EvAssignPage (init_transaction st) victim pid] @
       (if fetch_mode = kFetchPageData then [EvReadPage st pid] else []) @
       [if fetch_status = kSuccess then EvPageMapInsert st pid victim
        else EvUnassignPage (init_transaction st) victim]"
      using True by (simp add: s2_def s1_def)
    have cl: "store t \<in> closed_stores s2" by (simp add: s2_def s1_def)
    have m2': "page_map s2 (store t, page_id p) = None"
      using ne by (simp add: s2_def s1_def)
    have h2: "heap s2 victim = Some p2" by (simp add: s2_def)
    have pin2: "pin_count p2 = 1" by (simp add: p2_def p1_def)
    have as2: "assignment p2 = Some (st, pid)"
      by (simp add: p2_def assignment_def init_transaction_def)
    have m2: "page_map s2 (st, pid) = Some victim" by (simp add: s2_def)
    from sp tr cl m2' inv2 h2 pin2 as2 m2 True show ?thesis by blast
  next
    case False
    with fs have mode: "fetch_mode = kFetchPageData"
      and st: "fst (ReadPage_result env st pid) = fetch_status"
      by (simp_all split: if_splits)
    obtain bytes where rd: "ReadPage_result env st pid = (fetch_status, bytes)"
      using st by (cases "ReadPage_result env st pid") simp
    define p3 where "p3 = \<lparr> pin_count = 0, transaction = None, page_id = pid,
                            is_dirty = False, buffer = bytes \<rparr>"
    define s3 where "s3 = s1\<lparr> heap := (heap s1)(victim \<mapsto> p3),
             free_list := free_list s1 @ [victim],
             trace := trace s1 @
               [EvAssignPage (init_transaction st) victim pid, EvReadPage st pid,
                EvUnassignPage (init_transaction st) victim] \<rparr>"
    have sp: "StorePage env st pid fetch_mode s = Some ((fetch_status, None), s3)"
      unfolding mode StorePage_miss_fetch_fails[OF miss a h1 pin1 un1 rd False]
      by (simp add: s3_def p3_def)
    have inv3: "pool_inv s3" by (rule pool_inv_StorePage[OF inv sp])
    have tr: "trace s3 = trace s @
       [EvPageMapErase (store t) (page_id p), EvWritePage (store t) (page_id p),
        EvUnassignPersistedPage t victim, EvStoreClose (store t),
        EvAssignPage (init_transaction st) victim pid] @
       (if fetch_mode = kFetchPageData then [EvReadPage st pid] else []) @
       [if fetch_status = kSuccess then EvPageMapInsert st pid victim
        else EvUnassignPage (init_transaction st) victim]"
      using False mode by (simp add: s3_def s1_def)
    have cl: "store t \<in> closed_stores s3" by (simp add: s3_def s1_def)
    have m3': "page_map s3 (store t, page_id p) = None" by (simp add: s3_def s1_def)
    have h3: "heap s3 victim = Some p3" by (simp add: s3_def)
    have p3f: "pin_count p3 = 0" "transaction p3 = None" "\<not> is_dirty p3"
      by (simp_all add: p3_def)
    have fl: "victim \<in> set (free_list s3)" by (simp add: s3_def)
    have m3: "page_map s3 (st, pid) = None" using miss1 by (simp add: s3_def)
    from sp tr cl m3' inv3 h3 p3f fl m3 False show ?thesis by blast
  qed
qed

theorem StorePage_eviction_write_failure_witness:
  "pool_inv dirty_victim_pool \<and> page_map dirty_victim_pool (1, 2) = None \<and>
   lru_list dirty_victim_pool = [0] \<and>
   WritePage_result io_write_fails 1 1 [1, 2, 3, 4] \<noteq> kSuccess \<and>
   fst (ReadPage_result io_write_fails 1 2) = kSuccess \<and>
   map_option fst (StorePage io_write_fails 1 2 kFetchPageData dirty_victim_pool)
     = Some (kSuccess, Some 0) \<and>
   WritePage_result io_all_fail 1 1 [1, 2, 3, 4] \<noteq> kSuccess \<and>
   fst (ReadPage_result io_all_fail 1 2) = kIoError \<and>
   map_option fst (StorePage io_all_fail 1 2 kFetchPageData dirty_victim_pool)
     = Some (kIoError, None) \<and>
   map_option (\<lambda>r. closed_stores (snd r))
     (StorePage io_all_fail 1 2 kFetchPageData dirty_victim_pool) = Some {1}"
proof -
  have ev: "map_option (\<lambda>r. closed_stores (snd r))
     (StorePage io_all_fail 1 2 kFetchPageData dirty_victim_pool) = Some {1}"
    by (simp add: pool_defs page_defs collab_defs init_transaction_def io_all_fail_def
          Let_def dirty_victim_pool_def)
  have hyps: "page_map dirty_victim_pool (1, 2) = None" "free_list dirty_victim_pool = []"
    "\<not> page_count dirty_victim_pool < page_capacity dirty_victim_pool"
    "lru_list dirty_victim_pool = 0 # []"
    "heap dirty_victim_pool 0 = Some \<lparr> pin_count = 0, transaction = Some (TransactionImpl 1 0),
                       page_id = 1, is_dirty = True, buffer = [1, 2, 3, 4] \<rparr>"
    by (simp_all add: dirty_victim_pool_def)
  have ok: "\<exists>res s'. StorePage io_write_fails 1 2 kFetchPageData dirty_victim_pool
          = Some ((kSuccess, res), s') \<and> res = Some 0"
    using StorePage_eviction_write_failure[OF pool_inv_dirty_victim_pool hyps,
        of "TransactionImpl 1 0" io_write_fails kSuccess kFetchPageData]
    by (simp add: io_write_fails_def) blast
  have bad: "\<exists>res s'. StorePage io_all_fail 1 2 kFetchPageData dirty_victim_pool
          = Some ((kIoError, res), s') \<and> res = None"
    using StorePage_eviction_write_failure[OF pool_inv_dirty_victim_pool hyps,
        of "TransactionImpl 1 0" io_all_fail kIoError kFetchPageData]
    by (simp add: io_all_fail_def) blast
  from ok bad show ?thesis
    using ev hyps pool_inv_dirty_victim_pool
    by (auto simp: io_write_fails_def io_all_fail_def)
qed

theorem StorePage_eviction_write_failure_counterexample:
  "lru_list dirty_victim_pool = [0] \<and> free_list dirty_victim_pool = [] \<and>
   page_map dirty_victim_pool (1, 2) = None \<and>
   WritePage_result io_all_fail 1 1 [1, 2, 3, 4] \<noteq> kSuccess \<and>
   map_option fst (StorePage io_all_fail 1 2 kFetchPageData dirty_victim_pool)
     = Some (kIoError, None) \<and>
   map_option (trace \<circ> snd) (StorePage io_all_fail 1 2 kFetchPageData dirty_victim_pool)
     = Some (trace dirty_victim_pool @
         [EvPageMapErase 1 1, EvWritePage 1 1,
          EvUnassignPersistedPage (TransactionImpl 1 0) 0, EvStoreClose 1,
          EvAssignPage (TransactionImpl 1 0) 0 2, EvReadPage 1 2,
          EvUnassignPage (TransactionImpl 1 0) 0])"
  by (simp add: pool_defs page_defs collab_defs init_transaction_def io_all_fail_def
        Let_def dirty_victim_pool_def)

text \<open>C4. A \<^verbatim>\<open>StorePage\<close> miss in fetch mode whose \<^verbatim>\<open>ReadPage\<close> fails, in a pool
  that can still provide a frame: \<^verbatim>\<open>StorePage\<close> returns the status of the read
  (\<^verbatim>\<open>kIoError\<close>) and writes no result; the frame that \<^verbatim>\<open>AllocPage\<close> provided ends up
  unpinned, unassigned, clean and on the free list, and the resident map does not
  contain the requested key. What \<^verbatim>\<open>AllocPage\<close> did stays done: a frame
  created for the request remains in the pool, and a victim evicted for it remains
  evicted, so the state is not the one before the call.\<close>

theorem StorePage_fetch_failure:
  assumes inv: "pool_inv s" and miss: "page_map s (st, pid) = None"
    and rd: "ReadPage_result env st pid = (status, bytes)" and fail: "status \<noteq> kSuccess"
    and room: "free_list s \<noteq> [] \<or> page_count s < page_capacity s \<or> lru_list s \<noteq> []"
  shows "\<exists>page s1 p. AllocPage env s = Some (Some page, s1) \<and>
     heap s1 page = Some p \<and> pin_count p = 1 \<and> transaction p = None \<and> \<not> is_dirty p \<and>
     page_map s1 (st, pid) = None \<and>
     StorePage env st pid kFetchPageData s =
       Some ((status, None),
         s1\<lparr> heap := (heap s1)(page \<mapsto>
                 \<lparr> pin_count = 0, transaction = None, page_id = pid, is_dirty = False,
                   buffer = bytes \<rparr>),
             free_list := free_list s1 @ [page],
             trace := trace s1 @
               [EvAssignPage (init_transaction st) page pid, EvReadPage st pid,
                EvUnassignPage (init_transaction st) page] \<rparr>)"
proof -
  from AllocPage_some[OF inv room] obtain page s1 where
    a: "AllocPage env s = Some (Some page, s1)" by blast
  from AllocPage_page[OF inv a] obtain p where
    h1: "heap s1 page = Some p" and pin: "pin_count p = 1"
    and un: "transaction p = None" and clean: "\<not> is_dirty p" by blast
  have miss1: "page_map s1 (st, pid) = None"
    by (rule AllocPage_page_map[OF a miss])
  define p2 where "p2 = p\<lparr> transaction := None, page_id := pid, is_dirty := False,
                             buffer := bytes \<rparr>"
  define s2 where "s2 = s1\<lparr> heap := (heap s1)(page \<mapsto> p2),
      trace := (trace s1 @ [EvAssignPage (init_transaction st) page pid] @ [EvReadPage st pid])
                 @ [EvUnassignPage (init_transaction st) page] \<rparr>"
  have as: "AssignPageToStore env page st pid kFetchPageData s1 = Some (status, s2)"
    unfolding AssignPageToStore_eq[OF h1 un] Let_def
    using rd fail by (simp add: s2_def p2_def)
  define p3 where "p3 = \<lparr> pin_count = 0, transaction = None, page_id = pid,
                          is_dirty = False, buffer = bytes \<rparr>"
  have p3: "p2\<lparr> pin_count := pin_count p2 - 1 \<rparr> = p3"
    by (rule Page.equality) (simp_all add: p2_def p3_def pin)
  define s3 where "s3 = s1\<lparr> heap := (heap s1)(page \<mapsto> p3),
             free_list := free_list s1 @ [page],
             trace := trace s1 @
               [EvAssignPage (init_transaction st) page pid, EvReadPage st pid,
                EvUnassignPage (init_transaction st) page] \<rparr>"
  have h2: "heap s2 page = Some p2" by (simp add: s2_def)
  have un2: "transaction p2 = None" by (simp add: p2_def)
  have rp: "RemovePin p2 = Some p3"
    unfolding RemovePin_def using p3 by (simp add: p2_def pin)
  have un3: "IsUnpinned p3" by (simp add: IsUnpinned_def p3_def)
  have s23: "s2\<lparr> heap := (heap s2)(page \<mapsto> p3), free_list := free_list s2 @ [page] \<rparr> = s3"
    by (simp add: s2_def s3_def)
  have up: "UnpinUnassignedPage page s2 = Some s3"
    unfolding UnpinUnassignedPage_def Let_def
    using h2 un2 rp un3 s23 by simp
  have h3: "heap s3 page = Some p3" by (simp add: s3_def)
  have sp: "StorePage env st pid kFetchPageData s = Some ((status, None), s3)"
    unfolding StorePage_def using miss a as fail up h3 un3
    by simp
  from sp have sp': "StorePage env st pid kFetchPageData s =
       Some ((status, None),
         s1\<lparr> heap := (heap s1)(page \<mapsto>
                 \<lparr> pin_count = 0, transaction = None, page_id = pid, is_dirty = False,
                   buffer = bytes \<rparr>),
             free_list := free_list s1 @ [page],
             trace := trace s1 @
               [EvAssignPage (init_transaction st) page pid, EvReadPage st pid,
                EvUnassignPage (init_transaction st) page] \<rparr>)"
    unfolding s3_def p3_def .
  show ?thesis
    apply (rule exI[of _ page], rule exI[of _ s1], rule exI[of _ p])
    using a h1 pin un clean miss1 sp' apply simp
    done
qed

theorem StorePage_fetch_failure_witness:
  "pool_inv dirty_victim_pool \<and> page_map dirty_victim_pool (1, 2) = None \<and>
   ReadPage_result io_read_fails 1 2 = (kIoError, [0, 0, 0, 0]) \<and>
   lru_list dirty_victim_pool \<noteq> [] \<and>
   map_option fst (StorePage io_read_fails 1 2 kFetchPageData dirty_victim_pool)
     = Some (kIoError, None)"
proof -
  have hyps: "page_map dirty_victim_pool (1, 2) = None"
    "ReadPage_result io_read_fails 1 2 = (kIoError, [0, 0, 0, 0])"
    "kIoError \<noteq> kSuccess"
    "free_list dirty_victim_pool \<noteq> [] \<or>
       page_count dirty_victim_pool < page_capacity dirty_victim_pool \<or>
       lru_list dirty_victim_pool \<noteq> []"
    by (simp_all add: dirty_victim_pool_def io_read_fails_def)
  from StorePage_fetch_failure[OF pool_inv_dirty_victim_pool hyps]
  have "map_option fst (StorePage io_read_fails 1 2 kFetchPageData dirty_victim_pool)
     = Some (kIoError, None)"
    by auto
  then show ?thesis
    using hyps pool_inv_dirty_victim_pool by (simp add: dirty_victim_pool_def)
qed

theorem StorePage_fetch_failure_counterexample:
  "page_map dirty_victim_pool (1, 1) = Some 0 \<and>
   page_map dirty_victim_pool (1, 2) = None \<and>
   lru_list dirty_victim_pool = [0] \<and>
   fst (ReadPage_result io_read_fails 1 2) = kIoError \<and>
   map_option fst (StorePage io_read_fails 1 2 kFetchPageData dirty_victim_pool)
     = Some (kIoError, None) \<and>
   map_option (lru_list \<circ> snd) (StorePage io_read_fails 1 2 kFetchPageData dirty_victim_pool)
     = Some [] \<and>
   map_option (\<lambda>r. page_map (snd r) (1, 1))
     (StorePage io_read_fails 1 2 kFetchPageData dirty_victim_pool) = Some None \<and>
   map_option (\<lambda>r. page_map (snd r) (1, 1))
     (StorePage io_read_fails 1 2 kFetchPageData dirty_victim_pool)
     \<noteq> Some (page_map dirty_victim_pool (1, 1))"
  by (simp add: pool_defs page_defs collab_defs init_transaction_def io_read_fails_def
        Let_def dirty_victim_pool_def)

text \<open>C5. In every reachable pool state \<^verbatim>\<open>AllocPage\<close> follows its decision tree in
  order. (1) A non-empty free list gives its front frame, which is unpinned, unassigned
  and clean, now pinned once. (2) Otherwise, below capacity, the page count goes up by
  one and a new frame is returned: zero-filled, pinned once, unassigned. (3) Otherwise a
  non-empty LRU list gives its front frame, pinned once and evicted through
  \<^verbatim>\<open>UnassignPageFromStore\<close>: unassigned, clean, and its old key erased from the
  resident map. (4) Otherwise the result is null and nothing changes. The frames of the
  pool are exactly the \<open>page_count\<close> created so far, and their number never exceeds
  \<open>page_capacity\<close>, before and after the call.\<close>

theorem AllocPage_decision_tree:
  assumes "run ops (PagePool_new shift capacity) = Some s"
  shows
   "(\<forall>page rest. free_list s = page # rest \<longrightarrow>
       (\<exists>p. heap s page = Some p \<and> pin_count p = 0 \<and> transaction p = None \<and>
            \<not> is_dirty p \<and>
            AllocPage env s =
              Some (Some page,
                s\<lparr> free_list := rest,
                   heap := (heap s)(page \<mapsto> p\<lparr> pin_count := 1 \<rparr>) \<rparr>))) \<and>
    (free_list s = [] \<and> page_count s < page_capacity s \<longrightarrow>
       heap s (page_count s) = None \<and>
       AllocPage env s =
         Some (Some (page_count s),
           s\<lparr> page_count := page_count s + 1,
              heap := (heap s)(page_count s \<mapsto>
                 \<lparr> pin_count = 1, transaction = None, page_id = 0, is_dirty = False,
                   buffer = replicate (page_size s) 0 \<rparr>),
              trace := trace s @ [EvPageCreate (page_count s)] \<rparr>)) \<and>
    (\<forall>page rest. free_list s = [] \<and> \<not> page_count s < page_capacity s \<and>
         lru_list s = page # rest \<longrightarrow>
       (\<exists>p t. heap s page = Some p \<and> pin_count p = 0 \<and> transaction p = Some t \<and>
          AllocPage env s =
            map_option (Pair (Some page))
              (UnassignPageFromStore env page
                 (s\<lparr> heap := (heap s)(page \<mapsto> p\<lparr> pin_count := 1 \<rparr>),
                     lru_list := rest \<rparr>)) \<and>
          (\<exists>s'. AllocPage env s = Some (Some page, s') \<and>
             lru_list s' = rest \<and>
             heap s' page =
               Some (p\<lparr> pin_count := 1, transaction := None, is_dirty := False \<rparr>) \<and>
             page_map s' = (page_map s)((store t, page_id p) := None)))) \<and>
    (free_list s = [] \<and> \<not> page_count s < page_capacity s \<and> lru_list s = [] \<longrightarrow>
       AllocPage env s = Some (None, s)) \<and>
    page_count s \<le> page_capacity s \<and>
    dom (heap s) = {..<page_count s} \<and>
    (\<forall>res s'. AllocPage env s = Some (res, s') \<longrightarrow>
       page_count s' \<le> page_capacity s' \<and> dom (heap s') = {..<page_count s'})"
proof -
  have inv: "pool_inv s"
    by (rule pool_inv_run[OF pool_inv_new assms])
  have dom_inv: "\<And>s. pool_inv s \<Longrightarrow>
       page_count s \<le> page_capacity s \<and> dom (heap s) = {..<page_count s}"
    unfolding pool_inv_def by (auto simp: domIff) (metis not_le option.distinct(1))
  have c1: "\<forall>page rest. free_list s = page # rest \<longrightarrow>
       (\<exists>p. heap s page = Some p \<and> pin_count p = 0 \<and> transaction p = None \<and>
            \<not> is_dirty p \<and>
            AllocPage env s =
              Some (Some page,
                s\<lparr> free_list := rest,
                   heap := (heap s)(page \<mapsto> p\<lparr> pin_count := 1 \<rparr>) \<rparr>))"
  proof (intro allI impI)
    fix page rest assume fl: "free_list s = page # rest"
    then have mem: "page \<in> set (free_list s)" by simp
    from pool_inv_list_heap[OF inv] mem obtain p where hp: "heap s page = Some p" by blast
    note d = pool_inv_free_listD[OF inv mem hp]
    from AllocPage_free[OF fl hp] d
    have "AllocPage env s =
              Some (Some page,
                s\<lparr> free_list := rest,
                   heap := (heap s)(page \<mapsto> p\<lparr> pin_count := 1 \<rparr>) \<rparr>)"
      by (simp add: AddPin_def)
    with hp d show "\<exists>p. heap s page = Some p \<and> pin_count p = 0 \<and> transaction p = None \<and>
            \<not> is_dirty p \<and>
            AllocPage env s =
              Some (Some page,
                s\<lparr> free_list := rest,
                   heap := (heap s)(page \<mapsto> p\<lparr> pin_count := 1 \<rparr>) \<rparr>)"
      by blast
  qed
  have c2: "free_list s = [] \<and> page_count s < page_capacity s \<longrightarrow>
       heap s (page_count s) = None \<and>
       AllocPage env s =
         Some (Some (page_count s),
           s\<lparr> page_count := page_count s + 1,
              heap := (heap s)(page_count s \<mapsto>
                 \<lparr> pin_count = 1, transaction = None, page_id = 0, is_dirty = False,
                   buffer = replicate (page_size s) 0 \<rparr>),
              trace := trace s @ [EvPageCreate (page_count s)] \<rparr>)"
    using AllocPage_grow[of s env] inv
    by (auto simp: Page_Create_def pool_inv_def)
  have c3: "\<forall>page rest. free_list s = [] \<and> \<not> page_count s < page_capacity s \<and>
         lru_list s = page # rest \<longrightarrow>
       (\<exists>p t. heap s page = Some p \<and> pin_count p = 0 \<and> transaction p = Some t \<and>
          AllocPage env s =
            map_option (Pair (Some page))
              (UnassignPageFromStore env page
                 (s\<lparr> heap := (heap s)(page \<mapsto> p\<lparr> pin_count := 1 \<rparr>),
                     lru_list := rest \<rparr>)) \<and>
          (\<exists>s'. AllocPage env s = Some (Some page, s') \<and>
             lru_list s' = rest \<and>
             heap s' page =
               Some (p\<lparr> pin_count := 1, transaction := None, is_dirty := False \<rparr>) \<and>
             page_map s' = (page_map s)((store t, page_id p) := None)))"
  proof (intro allI impI, elim conjE)
    fix page rest
    assume fl: "free_list s = []" and full: "\<not> page_count s < page_capacity s"
      and lru: "lru_list s = page # rest"
    then have mem: "page \<in> set (lru_list s)" by simp
    from pool_inv_list_heap[OF inv] mem obtain p where hp: "heap s page = Some p" by blast
    from pool_inv_lru_listD[OF inv mem hp] obtain t where
      pin: "pin_count p = 0" and t: "transaction p = Some t" by auto
    have e1: "AllocPage env s =
            map_option (Pair (Some page))
              (UnassignPageFromStore env page
                 (s\<lparr> heap := (heap s)(page \<mapsto> p\<lparr> pin_count := 1 \<rparr>),
                     lru_list := rest \<rparr>))"
      unfolding AllocPage_evict[OF fl full lru hp] by (simp add: AddPin_def pin)
    have e2: "\<exists>s'. AllocPage env s = Some (Some page, s') \<and>
             lru_list s' = rest \<and>
             heap s' page =
               Some (p\<lparr> pin_count := 1, transaction := None, is_dirty := False \<rparr>) \<and>
             page_map s' = (page_map s)((store t, page_id p) := None)"
      unfolding AllocPage_evict_eq[OF inv fl full lru hp t] by simp
    from hp pin t e1 e2
    show "\<exists>p t. heap s page = Some p \<and> pin_count p = 0 \<and> transaction p = Some t \<and>
          AllocPage env s =
            map_option (Pair (Some page))
              (UnassignPageFromStore env page
                 (s\<lparr> heap := (heap s)(page \<mapsto> p\<lparr> pin_count := 1 \<rparr>),
                     lru_list := rest \<rparr>)) \<and>
          (\<exists>s'. AllocPage env s = Some (Some page, s') \<and>
             lru_list s' = rest \<and>
             heap s' page =
               Some (p\<lparr> pin_count := 1, transaction := None, is_dirty := False \<rparr>) \<and>
             page_map s' = (page_map s)((store t, page_id p) := None))"
      by blast
  qed
  have c4: "free_list s = [] \<and> \<not> page_count s < page_capacity s \<and> lru_list s = [] \<longrightarrow>
       AllocPage env s = Some (None, s)"
    using AllocPage_full[of s env] by blast
  have c5: "\<forall>res s'. AllocPage env s = Some (res, s') \<longrightarrow>
       page_count s' \<le> page_capacity s' \<and> dom (heap s') = {..<page_count s'}"
    using pool_inv_AllocPage[OF inv] dom_inv by blast
  from c1 c2 c3 c4 c5 dom_inv[OF inv] show ?thesis by blast
qed

theorem AllocPage_decision_tree_witness:
  "run [OpStorePage io_ok 1 1 kFetchPageData, OpMarkPageDirty 0,
        OpUnpinStorePage 0] (PagePool_new 2 1) = Some dirty_victim_pool \<and>
   free_list dirty_victim_pool = [] \<and>
   \<not> page_count dirty_victim_pool < page_capacity dirty_victim_pool \<and>
   lru_list dirty_victim_pool = [0] \<and>
   map_option fst (AllocPage io_ok dirty_victim_pool) = Some (Some 0) \<and>
   map_option (lru_list \<circ> snd) (AllocPage io_ok dirty_victim_pool) = Some []"
proof -
  have hyps: "free_list dirty_victim_pool = []"
   "\<not> page_count dirty_victim_pool < page_capacity dirty_victim_pool"
   "lru_list dirty_victim_pool = [0]"
    by (simp_all add: dirty_victim_pool_def)
  from AllocPage_decision_tree[OF dirty_victim_pool_reachable, of io_ok] hyps
  have "\<exists>s'. AllocPage io_ok dirty_victim_pool = Some (Some 0, s') \<and> lru_list s' = []"
    by blast
  then show ?thesis
    using hyps dirty_victim_pool_reachable by auto
qed

text \<open>C9. Destruction of the pool asserts that the total pin count is zero: with a
  pinned frame it aborts. Otherwise, from a state that satisfies the pool invariant, it
  releases every frame of the free list and then every frame of the LRU list, which are
  all the frames there are, and calls nothing else: no \<^verbatim>\<open>WritePage\<close>, also for a
  dirty frame on the LRU list, and no \<^verbatim>\<open>Close\<close>.\<close>

theorem PagePool_destroy_releases_without_write_back:
  "(pinned_pages s \<noteq> 0 \<longrightarrow> PagePool_destroy s = None) \<and>
   (pool_inv s \<and> pinned_pages s = 0 \<longrightarrow>
      (\<exists>s'. PagePool_destroy s = Some s' \<and>
         trace s' = trace s @ map EvPageRelease (free_list s) @
                      map EvPageRelease (lru_list s) \<and>
         (\<forall>page. page \<in> set (free_list s) \<or> page \<in> set (lru_list s) \<longrightarrow>
            heap s page \<noteq> None \<and> heap s' page = None) \<and>
         heap s' = Map.empty \<and>
         (\<forall>st pid. EvWritePage st pid \<notin> set (drop (length (trace s)) (trace s'))) \<and>
         closed_stores s' = closed_stores s \<and>
         page_map s' = page_map s))"
proof (intro conjI impI)
  assume "pinned_pages s \<noteq> 0"
  then show "PagePool_destroy s = None"
    by (simp add: PagePool_destroy_def)
next
  assume a: "pool_inv s \<and> pinned_pages s = 0"
  then have inv: "pool_inv s" and zero: "pinned_pages s = 0" by simp_all
  have df: "distinct (free_list s)" and dl: "distinct (lru_list s)"
    using inv by (simp_all add: pool_inv_def)
  have inheap: "\<And>page. page \<in> set (free_list s) \<or> page \<in> set (lru_list s) \<Longrightarrow>
                  heap s page \<noteq> None"
    using pool_inv_list_heap[OF inv] by auto
  have disj: "\<And>page. page \<in> set (free_list s) \<Longrightarrow> page \<notin> set (lru_list s)"
  proof
    fix page assume f: "page \<in> set (free_list s)" and l: "page \<in> set (lru_list s)"
    from inheap f obtain p where hp: "heap s page = Some p" by auto
    from pool_inv_free_listD[OF inv f hp] pool_inv_lru_listD[OF inv l hp]
    show False by simp
  qed
  define s1 where "s1 = s\<lparr> heap := (\<lambda>page. if page \<in> set (free_list s) then None
                                          else heap s page),
                        trace := trace s @ map EvPageRelease (free_list s) \<rparr>"
  have r1: "release_pages (free_list s) s = Some s1"
    unfolding s1_def by (rule release_pages_eq[OF df]) (simp add: inheap)
  define s2 where "s2 = s1\<lparr> heap := (\<lambda>page. if page \<in> set (lru_list s) then None
                                          else heap s1 page),
                        trace := trace s1 @ map EvPageRelease (lru_list s) \<rparr>"
  have r2: "release_pages (lru_list s) s1 = Some s2"
  proof -
    have "\<forall>page\<in>set (lru_list s). heap s1 page \<noteq> None"
    proof
      fix page assume l: "page \<in> set (lru_list s)"
      then have "page \<notin> set (free_list s)" using disj by blast
      moreover have "heap s page \<noteq> None" using inheap l by blast
      ultimately show "heap s1 page \<noteq> None" by (simp add: s1_def)
    qed
    from release_pages_eq[OF dl this] show ?thesis by (simp add: s2_def)
  qed
  have d: "PagePool_destroy s = Some s2"
    unfolding PagePool_destroy_def using zero r1 r2 by (simp add: s1_def)
  have tr: "trace s2 = trace s @ map EvPageRelease (free_list s) @
                      map EvPageRelease (lru_list s)"
    by (simp add: s2_def s1_def)
  have all: "\<And>page. heap s2 page = None"
  proof -
    fix page
    show "heap s2 page = None"
    proof (cases "heap s page")
      case None
      then show ?thesis by (simp add: s2_def s1_def)
    next
      case (Some p)
      have lt: "page < page_count s"
        using inv Some unfolding pool_inv_def by (metis not_le option.distinct(1))
      from pinned_pages_zero[OF zero lt Some] have pin: "pin_count p = 0" .
      have "page \<in> set (free_list s) \<or> page \<in> set (lru_list s)"
        using inv Some pin unfolding pool_inv_def by metis
      then show ?thesis by (auto simp: s2_def s1_def)
    qed
  qed
  have nowrite: "\<forall>st pid. EvWritePage st pid \<notin> set (drop (length (trace s)) (trace s2))"
    unfolding tr by auto
  show "\<exists>s'. PagePool_destroy s = Some s' \<and>
         trace s' = trace s @ map EvPageRelease (free_list s) @
                      map EvPageRelease (lru_list s) \<and>
         (\<forall>page. page \<in> set (free_list s) \<or> page \<in> set (lru_list s) \<longrightarrow>
            heap s page \<noteq> None \<and> heap s' page = None) \<and>
         heap s' = Map.empty \<and>
         (\<forall>st pid. EvWritePage st pid \<notin> set (drop (length (trace s)) (trace s'))) \<and>
         closed_stores s' = closed_stores s \<and>
         page_map s' = page_map s"
  proof (intro exI[of _ s2] conjI)
    show "PagePool_destroy s = Some s2" by (rule d)
    show "trace s2 = trace s @ map EvPageRelease (free_list s) @
                      map EvPageRelease (lru_list s)" by (rule tr)
    show "\<forall>page. page \<in> set (free_list s) \<or> page \<in> set (lru_list s) \<longrightarrow>
            heap s page \<noteq> None \<and> heap s2 page = None"
      using inheap all by blast
    show "heap s2 = Map.empty" using all by (intro ext)
    show "\<forall>st pid. EvWritePage st pid \<notin> set (drop (length (trace s)) (trace s2))"
      by (rule nowrite)
    show "closed_stores s2 = closed_stores s" by (simp add: s2_def s1_def)
    show "page_map s2 = page_map s" by (simp add: s2_def s1_def)
  qed
qed

theorem PagePool_destroy_releases_without_write_back_witness:
  "pool_inv dirty_victim_pool \<and> pinned_pages dirty_victim_pool = 0 \<and>
   map_option is_dirty (heap dirty_victim_pool 0) = Some True \<and>
   lru_list dirty_victim_pool = [0] \<and>
   map_option trace (PagePool_destroy dirty_victim_pool)
     = Some (trace dirty_victim_pool @ [EvPageRelease 0]) \<and>
   pinned_pages both_pinned_pool \<noteq> 0 \<and>
   PagePool_destroy both_pinned_pool = None"
proof -
  have z: "pinned_pages dirty_victim_pool = 0"
    by (simp add: pinned_pages_def dirty_victim_pool_def)
  have nz: "pinned_pages both_pinned_pool \<noteq> 0"
    by (simp add: pinned_pages_def both_pinned_pool_def eval_nat_numeral)
  have l: "lru_list dirty_victim_pool = [0]" "free_list dirty_victim_pool = []"
    "map_option is_dirty (heap dirty_victim_pool 0) = Some True"
    by (simp_all add: dirty_victim_pool_def)
  from PagePool_destroy_releases_without_write_back[of dirty_victim_pool]
    pool_inv_dirty_victim_pool z l
  have "map_option trace (PagePool_destroy dirty_victim_pool)
     = Some (trace dirty_victim_pool @ [EvPageRelease 0])"
    by auto
  moreover from PagePool_destroy_releases_without_write_back[of both_pinned_pool] nz
  have "PagePool_destroy both_pinned_pool = None" by blast
  ultimately show ?thesis
    using pool_inv_dirty_victim_pool z nz l by simp
qed

text \<open>C10. The libc VFS returns only \<^verbatim>\<open>kSuccess\<close> or \<^verbatim>\<open>kIoError\<close>, whatever the C
  library does. \<^verbatim>\<open>Lock\<close> returns \<^verbatim>\<open>kSuccess\<close> and calls nothing, so
  \<^verbatim>\<open>kAlreadyLocked\<close> is never produced. \<^verbatim>\<open>OpenForRandomAccess\<close> and
  \<^verbatim>\<open>OpenForBlockAccess\<close>, called with flags that pass the assertion, return: with
  \<^verbatim>\<open>kSuccess\<close> and a file, or with \<^verbatim>\<open>kIoError\<close>, no file and size 0; every failure
  of \<^verbatim>\<open>OpenLibcFile\<close> becomes \<^verbatim>\<open>kIoError\<close>, in particular a file that \<^verbatim>\<open>fopen\<close>
  cannot open for reading when \<^verbatim>\<open>create_if_missing\<close> is false, so \<^verbatim>\<open>kNotFound\<close> is
  never produced. Reads, writes, flushes, syncs, closes and removals return one of the
  two codes as well.\<close>

theorem libc_vfs_status_codes:
  "LibcBlockAccessFile_Lock L file w = (kSuccess, w) \<and>
   (create_if_missing \<or> \<not> error_if_exists \<longrightarrow>
      (\<exists>st fp sz w'.
         OpenForRandomAccess L win32 file_path create_if_missing error_if_exists w
           = Some ((st, fp, sz), w') \<and>
         (st = kSuccess \<and> fp \<noteq> None \<or> st = kIoError \<and> fp = None \<and> sz = 0)) \<and>
      (\<exists>st bf sz w'.
         OpenForBlockAccess L win32 file_path block_shift create_if_missing
             error_if_exists w
           = Some ((st, bf, sz), w') \<and>
         (st = kSuccess \<and> bf \<noteq> None \<or> st = kIoError \<and> bf = None \<and> sz = 0))) \<and>
   (\<forall>sz w'. OpenLibcFile L win32 file_path create_if_missing error_if_exists w
               = Some ((None, sz), w') \<longrightarrow>
      OpenForRandomAccess L win32 file_path create_if_missing error_if_exists w
        = Some ((kIoError, None, 0), w') \<and>
      OpenForBlockAccess L win32 file_path block_shift create_if_missing error_if_exists w
        = Some ((kIoError, None, 0), w')) \<and>
   (fst (libc_fopen L file_path ''rb+'' w) = None \<longrightarrow>
      map_option fst (OpenForRandomAccess L win32 file_path False False w)
        = Some (kIoError, None, 0) \<and>
      map_option fst (OpenForBlockAccess L win32 file_path block_shift False False w)
        = Some (kIoError, None, 0)) \<and>
   (\<forall>r. LibcBlockAccessFile_Read L file offset buf w = Some r \<longrightarrow>
      fst r = kSuccess \<or> fst r = kIoError) \<and>
   (\<forall>r. LibcBlockAccessFile_Write L file buf offset w = Some r \<longrightarrow>
      fst r = kSuccess \<or> fst r = kIoError) \<and>
   (fst (LibcBlockAccessFile_Sync L file w) = kSuccess \<or>
    fst (LibcBlockAccessFile_Sync L file w) = kIoError) \<and>
   fst (LibcBlockAccessFile_Close L file w) = kSuccess \<and>
   (fst (LibcRandomAccessFile_Read L f offset buf w) = kSuccess \<or>
    fst (LibcRandomAccessFile_Read L f offset buf w) = kIoError) \<and>
   (fst (LibcRandomAccessFile_Write L f buf offset w) = kSuccess \<or>
    fst (LibcRandomAccessFile_Write L f buf offset w) = kIoError) \<and>
   (fst (LibcRandomAccessFile_Flush L f w) = kSuccess \<or>
    fst (LibcRandomAccessFile_Flush L f w) = kIoError) \<and>
   (fst (LibcRandomAccessFile_Sync L f w) = kSuccess \<or>
    fst (LibcRandomAccessFile_Sync L f w) = kIoError) \<and>
   fst (LibcRandomAccessFile_Close L f w) = kSuccess \<and>
   (fst (RemoveFile L file_path w) = kSuccess \<or>
    fst (RemoveFile L file_path w) = kIoError)"
proof -
  have lock: "LibcBlockAccessFile_Lock L file w = (kSuccess, w)"
    by (simp add: LibcBlockAccessFile_Lock_def)
  have opens: "create_if_missing \<or> \<not> error_if_exists \<longrightarrow>
      (\<exists>st fp sz w'.
         OpenForRandomAccess L win32 file_path create_if_missing error_if_exists w
           = Some ((st, fp, sz), w') \<and>
         (st = kSuccess \<and> fp \<noteq> None \<or> st = kIoError \<and> fp = None \<and> sz = 0)) \<and>
      (\<exists>st bf sz w'.
         OpenForBlockAccess L win32 file_path block_shift create_if_missing
             error_if_exists w
           = Some ((st, bf, sz), w') \<and>
         (st = kSuccess \<and> bf \<noteq> None \<or> st = kIoError \<and> bf = None \<and> sz = 0))"
  proof
    assume "create_if_missing \<or> \<not> error_if_exists"
    from OpenLibcFile_returns[OF this, of L win32 file_path w] obtain fp sz w1 where
      o: "OpenLibcFile L win32 file_path create_if_missing error_if_exists w
            = Some ((fp, sz), w1)"
      by blast
    show "(\<exists>st fp sz w'.
         OpenForRandomAccess L win32 file_path create_if_missing error_if_exists w
           = Some ((st, fp, sz), w') \<and>
         (st = kSuccess \<and> fp \<noteq> None \<or> st = kIoError \<and> fp = None \<and> sz = 0)) \<and>
      (\<exists>st bf sz w'.
         OpenForBlockAccess L win32 file_path block_shift create_if_missing
             error_if_exists w
           = Some ((st, bf, sz), w') \<and>
         (st = kSuccess \<and> bf \<noteq> None \<or> st = kIoError \<and> bf = None \<and> sz = 0))"
      unfolding OpenForRandomAccess_def OpenForBlockAccess_def o
        LibcBlockAccessFile_new_def
      by (cases fp) simp_all
  qed
  have nulls: "\<forall>sz w'. OpenLibcFile L win32 file_path create_if_missing error_if_exists w
               = Some ((None, sz), w') \<longrightarrow>
      OpenForRandomAccess L win32 file_path create_if_missing error_if_exists w
        = Some ((kIoError, None, 0), w') \<and>
      OpenForBlockAccess L win32 file_path block_shift create_if_missing error_if_exists w
        = Some ((kIoError, None, 0), w')"
    by (simp add: OpenForRandomAccess_def OpenForBlockAccess_def)
  have missing: "fst (libc_fopen L file_path ''rb+'' w) = None \<longrightarrow>
      map_option fst (OpenForRandomAccess L win32 file_path False False w)
        = Some (kIoError, None, 0) \<and>
      map_option fst (OpenForBlockAccess L win32 file_path block_shift False False w)
        = Some (kIoError, None, 0)"
    using OpenLibcFile_missing[of L file_path w win32]
    by (simp add: OpenForRandomAccess_def OpenForBlockAccess_def)
  have rw: "(\<forall>r. LibcBlockAccessFile_Read L file offset buf w = Some r \<longrightarrow>
      fst r = kSuccess \<or> fst r = kIoError)"
   "(\<forall>r. LibcBlockAccessFile_Write L file buf offset w = Some r \<longrightarrow>
      fst r = kSuccess \<or> fst r = kIoError)"
   "(fst (LibcRandomAccessFile_Read L f offset buf w) = kSuccess \<or>
    fst (LibcRandomAccessFile_Read L f offset buf w) = kIoError)"
   "(fst (LibcRandomAccessFile_Write L f buf offset w) = kSuccess \<or>
    fst (LibcRandomAccessFile_Write L f buf offset w) = kIoError)"
    unfolding LibcBlockAccessFile_Read_def LibcBlockAccessFile_Write_def
      LibcRandomAccessFile_Read_def LibcRandomAccessFile_Write_def
      ReadLibcFile_def WriteLibcFile_def
    by (auto split: prod.splits if_splits)
  have others: "(fst (LibcBlockAccessFile_Sync L file w) = kSuccess \<or>
    fst (LibcBlockAccessFile_Sync L file w) = kIoError)"
    "fst (LibcBlockAccessFile_Close L file w) = kSuccess"
    "(fst (LibcRandomAccessFile_Flush L f w) = kSuccess \<or>
    fst (LibcRandomAccessFile_Flush L f w) = kIoError)"
    "(fst (LibcRandomAccessFile_Sync L f w) = kSuccess \<or>
    fst (LibcRandomAccessFile_Sync L f w) = kIoError)"
    "fst (LibcRandomAccessFile_Close L f w) = kSuccess"
    "(fst (RemoveFile L file_path w) = kSuccess \<or>
    fst (RemoveFile L file_path w) = kIoError)"
    unfolding LibcBlockAccessFile_Sync_def LibcBlockAccessFile_Close_def
      LibcRandomAccessFile_Flush_def LibcRandomAccessFile_Sync_def
      LibcRandomAccessFile_Close_def RemoveFile_def SyncLibcFile_def
    by (auto split: prod.splits if_splits)
  from lock opens nulls missing rw others show ?thesis by blast
qed

theorem libc_vfs_status_codes_witness:
  "fst (libc_fopen files_libc ''missing.berry'' ''rb+'' []) = None \<and>
   map_option fst (OpenForRandomAccess files_libc False ''missing.berry'' False False [])
     = Some (kIoError, None, 0) \<and>
   map_option fst (OpenForBlockAccess files_libc False ''missing.berry'' 12 False False [])
     = Some (kIoError, None, 0) \<and>
   LibcBlockAccessFile_Lock files_libc \<lparr> block_fp = 1, block_size = 4096 \<rparr> []
     = (kSuccess, [])"
proof -
  have h: "fst (libc_fopen files_libc ''missing.berry'' ''rb+'' []) = None"
    by (simp add: files_libc_def)
  from libc_vfs_status_codes[of files_libc "\<lparr> block_fp = 1, block_size = 4096 \<rparr>" "[]"
      False False False "''missing.berry''" 12] h
  show ?thesis by blast
qed

end
